theory Spec2Isabelle
  imports Complex_Main
begin

section \<open>Numbers\<close>

text \<open>
  The TypeScript type \<open>number\<close>. A finite value is carried as a real, and the three
  values that the simulation can reach through a division by zero, an overflow or an
  empty \<open>Math.min\<close>/\<open>Math.max\<close> are constructors of their own. The operations of this
  section are exact on finite values. The source rounds the result of every operation to
  binary64: the rounded operations are those of section \<open>Binary64\<close>. The definitions
  of section \<open>The simulation\<close> use the exact operations, with the literals \<open>0.8\<close> and
  \<open>1.2\<close> read as \<open>4/5\<close> and \<open>6/5\<close>; the sampler and the loop are given again with
  the rounded operations in section \<open>Binary64\<close>, where the size of the values they
  return is settled. The sign of zero is not modelled (a nonzero value divided by zero
  takes the sign of the dividend).
\<close>

datatype number = Fin real | PosInf | NegInf | NaN

instantiation number :: "{plus, uminus, minus, times, inverse, ord}"
begin

fun plus_number :: "number \<Rightarrow> number \<Rightarrow> number" where
  "Fin a + Fin b = Fin (a + b)"
| "NaN + _ = NaN"
| "_ + NaN = NaN"
| "PosInf + NegInf = NaN"
| "NegInf + PosInf = NaN"
| "PosInf + _ = PosInf"
| "_ + PosInf = PosInf"
| "NegInf + _ = NegInf"
| "_ + NegInf = NegInf"

fun uminus_number :: "number \<Rightarrow> number" where
  "- Fin a = Fin (- a)"
| "- PosInf = NegInf"
| "- NegInf = PosInf"
| "- NaN = NaN"

definition minus_number :: "number \<Rightarrow> number \<Rightarrow> number" where
  "x - y = x + (- y)" for x y :: number

fun times_number :: "number \<Rightarrow> number \<Rightarrow> number" where
  "Fin a * Fin b = Fin (a * b)"
| "NaN * _ = NaN"
| "_ * NaN = NaN"
| "Fin a * PosInf = (if a = 0 then NaN else if 0 < a then PosInf else NegInf)"
| "Fin a * NegInf = (if a = 0 then NaN else if 0 < a then NegInf else PosInf)"
| "PosInf * Fin b = (if b = 0 then NaN else if 0 < b then PosInf else NegInf)"
| "NegInf * Fin b = (if b = 0 then NaN else if 0 < b then NegInf else PosInf)"
| "PosInf * PosInf = PosInf"
| "PosInf * NegInf = NegInf"
| "NegInf * PosInf = NegInf"
| "NegInf * NegInf = PosInf"

fun divide_number :: "number \<Rightarrow> number \<Rightarrow> number" where
  "divide (Fin a) (Fin b) =
     (if b = 0 then (if a = 0 then NaN else if 0 < a then PosInf else NegInf)
      else Fin (a / b))"
| "divide NaN _ = NaN"
| "divide _ NaN = NaN"
| "divide (Fin a) PosInf = Fin 0"
| "divide (Fin a) NegInf = Fin 0"
| "divide PosInf (Fin b) = (if 0 \<le> b then PosInf else NegInf)"
| "divide NegInf (Fin b) = (if 0 \<le> b then NegInf else PosInf)"
| "divide PosInf PosInf = NaN"
| "divide PosInf NegInf = NaN"
| "divide NegInf PosInf = NaN"
| "divide NegInf NegInf = NaN"

definition inverse_number :: "number \<Rightarrow> number" where
  "inverse x = divide (Fin 1) x" for x :: number

fun less_number :: "number \<Rightarrow> number \<Rightarrow> bool" where
  "Fin a < Fin b \<longleftrightarrow> a < b"
| "NaN < _ \<longleftrightarrow> False"
| "_ < NaN \<longleftrightarrow> False"
| "_ < NegInf \<longleftrightarrow> False"
| "PosInf < _ \<longleftrightarrow> False"
| "NegInf < _ \<longleftrightarrow> True"
| "Fin a < PosInf \<longleftrightarrow> True"

fun less_eq_number :: "number \<Rightarrow> number \<Rightarrow> bool" where
  "Fin a \<le> Fin b \<longleftrightarrow> a \<le> b"
| "NaN \<le> _ \<longleftrightarrow> False"
| "_ \<le> NaN \<longleftrightarrow> False"
| "NegInf \<le> _ \<longleftrightarrow> True"
| "_ \<le> PosInf \<longleftrightarrow> True"
| "PosInf \<le> _ \<longleftrightarrow> False"
| "Fin a \<le> NegInf \<longleftrightarrow> False"

instance ..

end

text \<open>\<open>Math.sqrt\<close>: NaN on a negative argument.\<close>

fun Math_sqrt :: "number \<Rightarrow> number" where
  "Math_sqrt (Fin a) = (if a < 0 then NaN else Fin (sqrt a))"
| "Math_sqrt PosInf = PosInf"
| "Math_sqrt NegInf = NaN"
| "Math_sqrt NaN = NaN"

fun Math_floor :: "number \<Rightarrow> number" where
  "Math_floor (Fin a) = Fin (of_int \<lfloor>a\<rfloor>)"
| "Math_floor x = x"

text \<open>\<open>Math.round\<close> rounds to the nearest integer, a half towards plus infinity.\<close>

fun Math_round :: "number \<Rightarrow> number" where
  "Math_round (Fin a) = Fin (of_int \<lfloor>a + 1 / 2\<rfloor>)"
| "Math_round x = x"

text \<open>
  \<open>Math.min\<close> and \<open>Math.max\<close> take any number of arguments: NaN as soon as one argument
  is NaN, and plus (minus) infinity for no argument at all. \<open>Math.min(...data)\<close> spreads
  the array into the arguments (the limit an engine puts on the number of arguments is
  not modelled).
\<close>

definition Math_min2 :: "number \<Rightarrow> number \<Rightarrow> number" where
  "Math_min2 x y = (if x = NaN \<or> y = NaN then NaN else if x \<le> y then x else y)"

definition Math_max2 :: "number \<Rightarrow> number \<Rightarrow> number" where
  "Math_max2 x y = (if x = NaN \<or> y = NaN then NaN else if x \<le> y then y else x)"

definition Math_min :: "number list \<Rightarrow> number" where
  "Math_min xs = foldr Math_min2 xs PosInf"

definition Math_max :: "number list \<Rightarrow> number" where
  "Math_max xs = foldr Math_max2 xs NegInf"

text \<open>
  The conversion of a number to a string inside a template literal, for the values
  \<open>Math.round\<close> returns: the decimal digits of an integer, and the names of the three
  special values. (Beyond \<open>10^21\<close> JavaScript switches to exponent notation; here the
  digits are written out.)
\<close>

fun digits :: "nat \<Rightarrow> string" where
  "digits n =
     (if n < 10 then [char_of (48 + n)]
      else digits (n div 10) @ [char_of (48 + n mod 10)])"

declare digits.simps [simp del]

fun ToString :: "number \<Rightarrow> string" where
  "ToString (Fin a) =
     (if a < 0 then ''-'' @ digits (nat \<lfloor>- a\<rfloor>) else digits (nat \<lfloor>a\<rfloor>))"
| "ToString PosInf = ''Infinity''"
| "ToString NegInf = ''-Infinity''"
| "ToString NaN = ''NaN''"

section \<open>The random source\<close>

text \<open>
  \<open>Math.random()\<close> reads and advances a generator that belongs to the JavaScript
  realm. Its state is modelled by the sequence of values that the coming calls will
  return; a call returns the first and leaves the rest.
\<close>

type_synonym rng = "nat \<Rightarrow> real"

definition Math_random :: "rng \<Rightarrow> real \<times> rng" where
  "Math_random g = (g 0, \<lambda>k. g (Suc k))"

text \<open>The values \<open>Math.random\<close> can return: the half-open unit interval.\<close>

definition uniform :: "rng \<Rightarrow> bool" where
  "uniform g \<longleftrightarrow> (\<forall>k. 0 \<le> g k \<and> g k < 1)"

section \<open>The simulation\<close>

datatype error = TypeError

record HistogramBin =
  bin :: string
  count :: nat

record SimulationResult =
  probabilityOfSuccess :: number
  expectedCost :: number
  expectedTime :: number
  costDistribution :: "HistogramBin list"
  timeDistribution :: "HistogramBin list"
  riskHeatmap :: "(number \<times> number \<times> number) list"

subsection \<open>triangularSample\<close>

text \<open>
  The parameters \<open>min\<close> and \<open>max\<close> are written \<open>minv\<close> and \<open>maxv\<close>.
  The body of \<open>triangularSample\<close> after the draw \<open>u\<close> has been made, and the
  function itself, which makes the draw.
\<close>

definition triangularValue :: "number \<Rightarrow> number \<Rightarrow> number \<Rightarrow> real \<Rightarrow> number" where
  "triangularValue minv mode maxv u =
     (let f = (mode - minv) / (maxv - minv) in
      if Fin u < f then minv + Math_sqrt (Fin u * (maxv - minv) * (mode - minv))
      else maxv - Math_sqrt ((Fin 1 - Fin u) * (maxv - minv) * (maxv - mode)))"

definition triangularSample :: "number \<Rightarrow> number \<Rightarrow> number \<Rightarrow> rng \<Rightarrow> number \<times> rng" where
  "triangularSample minv mode maxv g =
     (let (u, g') = Math_random g in (triangularValue minv mode maxv u, g'))"

subsection \<open>createHistogram\<close>

text \<open>
  \<open>histogram[binIndex].count++\<close>: the element is read under the key \<open>binIndex\<close>. A
  key that is not an index of the array (NaN, an infinity, a negative or fractional
  number, or one past the end) reads \<open>undefined\<close>, and taking \<open>.count\<close> of it throws
  a TypeError.
\<close>

fun array_index :: "number \<Rightarrow> nat option" where
  "array_index (Fin a) =
     (if 0 \<le> a \<and> a = of_int \<lfloor>a\<rfloor> then Some (nat \<lfloor>a\<rfloor>) else None)"
| "array_index x = None"

definition increment :: "HistogramBin list \<Rightarrow> number \<Rightarrow> error + HistogramBin list" where
  "increment histogram binIndex =
     (case array_index binIndex of
        None \<Rightarrow> Inl TypeError
      | Some i \<Rightarrow>
          if i < length histogram
          then Inr (histogram[i := (histogram ! i)\<lparr>count := count (histogram ! i) + 1\<rparr>])
          else Inl TypeError)"

text \<open>The \<open>forEach\<close> loop; an exception ends it.\<close>

fun forEach :: "number \<Rightarrow> number \<Rightarrow> nat \<Rightarrow> number list \<Rightarrow> HistogramBin list
    \<Rightarrow> error + HistogramBin list" where
  "forEach minv binSize bins [] histogram = Inr histogram"
| "forEach minv binSize bins (val # rest) histogram =
     (let binIndex = Math_min2 (Math_floor ((val - minv) / binSize)) (Fin (real bins - 1)) in
      case increment histogram binIndex of
        Inl e \<Rightarrow> Inl e
      | Inr histogram' \<Rightarrow> forEach minv binSize bins rest histogram')"

text \<open>
  \<open>bins\<close> is a count of bins: every call passes the literal 10, and it is modelled as a
  natural number.
\<close>

definition createHistogram :: "number list \<Rightarrow> nat \<Rightarrow> error + HistogramBin list" where
  "createHistogram data bins =
     (let minv = Math_min data;
          maxv = Math_max data;
          range = maxv - minv;
          binSize = range / Fin (real bins);
          histogram = map (\<lambda>i. \<lparr>bin = ToString (Math_round (minv + Fin (real i) * binSize))
                                     @ '' - ''
                                     @ ToString (Math_round (minv + Fin (real (i + 1)) * binSize)),
                                count = 0\<rparr>) [0..<bins]
      in forEach minv binSize bins data histogram)"

subsection \<open>runMonteCarlo\<close>

text \<open>
  The variables the \<open>for\<close> loop updates, with the generator it draws from, the body
  of the loop, and the loop. The loop variable \<open>i\<close> is not read by the body, so the
  loop is a recursion on the number of rounds left. \<open>iterations\<close> is a natural
  number: the calls modelled are those with a whole number of iterations, zero included
  (the default is 5000). For another number the test \<open>i < iterations\<close> gives another
  count of rounds, and such calls are not modelled.
\<close>

record loop_state =
  costs :: "number list"
  times :: "number list"
  successes :: nat
  generator :: rng

definition loop_body :: "number \<Rightarrow> number \<Rightarrow> number \<Rightarrow> number \<Rightarrow> loop_state \<Rightarrow> loop_state" where
  "loop_body baseCost baseTime minMultiplier maxMultiplier s =
     (let (costSample, g1) =
            triangularSample (baseCost * minMultiplier) baseCost (baseCost * maxMultiplier)
              (generator s);
          (timeSample, g2) =
            triangularSample (baseTime * minMultiplier) baseTime (baseTime * maxMultiplier) g1
      in \<lparr>costs = costs s @ [costSample],
          times = times s @ [timeSample],
          successes =
            (if costSample \<le> baseCost * Fin (6 / 5) \<and> timeSample \<le> baseTime * Fin (6 / 5)
             then successes s + 1 else successes s),
          generator = g2\<rparr>)"

fun for_loop :: "number \<Rightarrow> number \<Rightarrow> number \<Rightarrow> number \<Rightarrow> nat \<Rightarrow> loop_state \<Rightarrow> loop_state" where
  "for_loop baseCost baseTime minMultiplier maxMultiplier 0 s = s"
| "for_loop baseCost baseTime minMultiplier maxMultiplier (Suc n) s =
     for_loop baseCost baseTime minMultiplier maxMultiplier n
       (loop_body baseCost baseTime minMultiplier maxMultiplier s)"

text \<open>
  The result is the value returned or the exception thrown, together with the state in
  which the call leaves the generator.
\<close>

definition runMonteCarlo ::
    "number \<Rightarrow> number \<Rightarrow> number \<Rightarrow> nat \<Rightarrow> rng \<Rightarrow> (error + SimulationResult) \<times> rng" where
  "runMonteCarlo baseCost baseTime riskFactor iterations g =
     (let minMultiplier = Fin (4 / 5);
          maxMultiplier = Fin 1 + (riskFactor / Fin 50);
          s = for_loop baseCost baseTime minMultiplier maxMultiplier iterations
                \<lparr>costs = [], times = [], successes = 0, generator = g\<rparr>;
          avgCost = foldl (+) (Fin 0) (costs s) / Fin (real iterations);
          avgTime = foldl (+) (Fin 0) (times s) / Fin (real iterations);
          probability = Fin (real (successes s)) / Fin (real iterations)
      in ((case createHistogram (costs s) 10 of
             Inl e \<Rightarrow> Inl e
           | Inr cd \<Rightarrow>
               (case createHistogram (times s) 10 of
                  Inl e \<Rightarrow> Inl e
                | Inr td \<Rightarrow>
                    Inr \<lparr>probabilityOfSuccess = probability,
                         expectedCost = avgCost,
                         expectedTime = avgTime,
                         costDistribution = cd,
                         timeDistribution = td,
                         riskHeatmap = []\<rparr>)),
          generator s))"

subsection \<open>Generator states used in the examples\<close>

text \<open>
  \<open>constant_draws u\<close> returns \<open>u\<close> at every call; \<open>draws_then_zeros m u\<close> returns
  \<open>u\<close> at its first \<open>m\<close> calls and 0 afterwards; \<open>zeros_then_draws m u\<close> returns 0 at its
  first \<open>m\<close> calls and \<open>u\<close> afterwards.
\<close>

definition constant_draws :: "real \<Rightarrow> rng" where
  "constant_draws u = (\<lambda>k. u)"

definition draws_then_zeros :: "nat \<Rightarrow> real \<Rightarrow> rng" where
  "draws_then_zeros m u = (\<lambda>k. if k < m then u else 0)"

definition zeros_then_draws :: "nat \<Rightarrow> real \<Rightarrow> rng" where
  "zeros_then_draws m u = (\<lambda>k. if k < m then 0 else u)"

section \<open>Binary64\<close>

text \<open>
  The numbers of the source are IEEE 754 binary64 numbers: a finite one is an integer of
  magnitude below \<open>2^53\<close> times a power of two between \<open>2^-1074\<close> and \<open>2^971\<close>.
  \<open>rne\<close> is the integer nearest to a real, the even one of two that are equally near.
  \<open>round64 x\<close> is the binary64 number nearest to \<open>x\<close>: \<open>x\<close> is rounded to a multiple of
  \<open>2^(e - 52)\<close>, where \<open>e\<close> is the exponent of \<open>x\<close> and at least \<open>-1022\<close> (below
  \<open>2^-1022\<close> the numbers are \<open>2^-1074\<close> apart), and a result of magnitude \<open>2^1024\<close> or
  more is an infinity.
\<close>

definition rne :: "real \<Rightarrow> int" where
  "rne q =
     (let n = \<lfloor>q\<rfloor> in
      if q - of_int n < 1 / 2 then n
      else if 1 / 2 < q - of_int n then n + 1
      else if even n then n else n + 1)"

definition round64 :: "real \<Rightarrow> number" where
  "round64 x =
     (if x = 0 then Fin 0
      else
        let e = max \<lfloor>log 2 \<bar>x\<bar>\<rfloor> (- 1022);
            ulp = 2 powi (e - 52);
            y = of_int (rne (x / ulp)) * ulp
        in if 2 powi 1024 \<le> \<bar>y\<bar> then (if 0 < x then PosInf else NegInf) else Fin y)"

text \<open>
  An operation of the source is the exact operation followed by rounding; an infinity or
  NaN is not changed by it. \<open>Math.sqrt\<close> is taken to round correctly, as the square root
  of the hardware does.
\<close>

fun rnd :: "number \<Rightarrow> number" where
  "rnd (Fin x) = round64 x"
| "rnd v = v"

definition add64 :: "number \<Rightarrow> number \<Rightarrow> number" where
  "add64 a b = rnd (a + b)"

definition sub64 :: "number \<Rightarrow> number \<Rightarrow> number" where
  "sub64 a b = rnd (a - b)"

definition mul64 :: "number \<Rightarrow> number \<Rightarrow> number" where
  "mul64 a b = rnd (a * b)"

definition div64 :: "number \<Rightarrow> number \<Rightarrow> number" where
  "div64 a b = rnd (a / b)"

definition sqrt64 :: "number \<Rightarrow> number" where
  "sqrt64 a = rnd (Math_sqrt a)"

subsection \<open>The sampler and the loop with rounding\<close>

text \<open>
  The bodies of \<open>triangularValue\<close>, \<open>triangularSample\<close>, \<open>loop_body\<close> and \<open>for_loop\<close>
  with the operations of the source; the literals \<open>0.8\<close> and \<open>1.2\<close> are the binary64
  numbers nearest to \<open>4/5\<close> and \<open>6/5\<close>. The product \<open>u * (max - min) * (mode - min)\<close>
  is evaluated from the left.
\<close>

definition triangularValue64 :: "number \<Rightarrow> number \<Rightarrow> number \<Rightarrow> real \<Rightarrow> number" where
  "triangularValue64 minv mode maxv u =
     (let f = div64 (sub64 mode minv) (sub64 maxv minv) in
      if Fin u < f
      then add64 minv (sqrt64 (mul64 (mul64 (Fin u) (sub64 maxv minv)) (sub64 mode minv)))
      else sub64 maxv
             (sqrt64 (mul64 (mul64 (sub64 (Fin 1) (Fin u)) (sub64 maxv minv)) (sub64 maxv mode))))"

definition triangularSample64 :: "number \<Rightarrow> number \<Rightarrow> number \<Rightarrow> rng \<Rightarrow> number \<times> rng" where
  "triangularSample64 minv mode maxv g =
     (let (u, g') = Math_random g in (triangularValue64 minv mode maxv u, g'))"

definition loop_body64 :: "number \<Rightarrow> number \<Rightarrow> number \<Rightarrow> number \<Rightarrow> loop_state \<Rightarrow> loop_state" where
  "loop_body64 baseCost baseTime minMultiplier maxMultiplier s =
     (let (costSample, g1) =
            triangularSample64 (mul64 baseCost minMultiplier) baseCost
              (mul64 baseCost maxMultiplier) (generator s);
          (timeSample, g2) =
            triangularSample64 (mul64 baseTime minMultiplier) baseTime
              (mul64 baseTime maxMultiplier) g1
      in \<lparr>costs = costs s @ [costSample],
          times = times s @ [timeSample],
          successes =
            (if costSample \<le> mul64 baseCost (round64 (6 / 5))
                \<and> timeSample \<le> mul64 baseTime (round64 (6 / 5))
             then successes s + 1 else successes s),
          generator = g2\<rparr>)"

fun for_loop64 :: "number \<Rightarrow> number \<Rightarrow> number \<Rightarrow> number \<Rightarrow> nat \<Rightarrow> loop_state \<Rightarrow> loop_state" where
  "for_loop64 baseCost baseTime minMultiplier maxMultiplier 0 s = s"
| "for_loop64 baseCost baseTime minMultiplier maxMultiplier (Suc n) s =
     for_loop64 baseCost baseTime minMultiplier maxMultiplier n
       (loop_body64 baseCost baseTime minMultiplier maxMultiplier s)"

text \<open>
  \<open>runMonteCarlo\<close> up to the end of its \<open>for\<close> loop: the two multipliers, and the
  variables as the loop leaves them.
\<close>

definition runMonteCarlo_loop64 :: "number \<Rightarrow> number \<Rightarrow> number \<Rightarrow> nat \<Rightarrow> rng \<Rightarrow> loop_state" where
  "runMonteCarlo_loop64 baseCost baseTime riskFactor iterations g =
     (let minMultiplier = round64 (4 / 5);
          maxMultiplier = add64 (Fin 1) (div64 riskFactor (Fin 50))
      in for_loop64 baseCost baseTime minMultiplier maxMultiplier iterations
           \<lparr>costs = [], times = [], successes = 0, generator = g\<rparr>)"

section \<open>Arithmetic on finite numbers\<close>

lemma Fin_minus [simp]: "Fin a - Fin b = Fin (a - b)"
  by (simp add: minus_number_def)

lemma Math_min2_Fin [simp]: "Math_min2 (Fin a) (Fin b) = Fin (min a b)"
  by (simp add: Math_min2_def min_def)

lemma Math_max2_Fin [simp]: "Math_max2 (Fin a) (Fin b) = Fin (max a b)"
  by (simp add: Math_max2_def max_def)

lemma Math_min_Fin: "vs \<noteq> [] \<Longrightarrow> Math_min (map Fin vs) = Fin (Min (set vs))"
proof (induction vs)
  case Nil
  then show ?case by simp
next
  case (Cons v vs)
  show ?case
  proof (cases "vs = []")
    case True
    then show ?thesis by (simp add: Math_min_def Math_min2_def)
  next
    case False
    with Cons.IH have "Math_min (map Fin vs) = Fin (Min (set vs))" by simp
    then have "Math_min (map Fin (v # vs)) = Fin (min v (Min (set vs)))"
      by (simp add: Math_min_def)
    then show ?thesis using False by simp
  qed
qed

lemma Math_max_Fin: "vs \<noteq> [] \<Longrightarrow> Math_max (map Fin vs) = Fin (Max (set vs))"
proof (induction vs)
  case Nil
  then show ?case by simp
next
  case (Cons v vs)
  show ?case
  proof (cases "vs = []")
    case True
    then show ?thesis by (simp add: Math_max_def Math_max2_def)
  next
    case False
    with Cons.IH have "Math_max (map Fin vs) = Fin (Max (set vs))" by simp
    then have "Math_max (map Fin (v # vs)) = Fin (max v (Max (set vs)))"
      by (simp add: Math_max_def)
    then show ?thesis using False by simp
  qed
qed

section \<open>The sampler\<close>

lemma sqrt_le_bound: "0 \<le> x \<Longrightarrow> 0 \<le> d \<Longrightarrow> x \<le> d * d \<Longrightarrow> sqrt x \<le> d"
proof -
  assume "0 \<le> x" "0 \<le> d" "x \<le> d * d"
  from this(3) have "sqrt x \<le> sqrt (d * d)" by (rule real_sqrt_le_mono)
  also have "sqrt (d * d) = d" using \<open>0 \<le> d\<close> by simp
  finally show ?thesis .
qed

lemma first_branch_le_mode:
  assumes "a \<le> c" "a < b" "0 \<le> u" "u < (c - a) / (b - a)"
  shows "sqrt (u * (b - a) * (c - a)) \<le> c - a"
proof (rule sqrt_le_bound)
  from assms have "u * (b - a) < c - a" by (simp add: pos_less_divide_eq)
  then have "u * (b - a) * (c - a) \<le> (c - a) * (c - a)"
    using assms by (intro mult_right_mono) auto
  then show "u * (b - a) * (c - a) \<le> (c - a) * (c - a)" .
  show "0 \<le> u * (b - a) * (c - a)" using assms by simp
  show "0 \<le> c - a" using assms by simp
qed

lemma second_branch_ge_mode:
  assumes "c \<le> b" "a < b" "u \<le> 1" "(c - a) / (b - a) \<le> u"
  shows "sqrt ((1 - u) * (b - a) * (b - c)) \<le> b - c"
proof (rule sqrt_le_bound)
  from assms have "c - a \<le> u * (b - a)" by (simp add: pos_divide_le_eq)
  then have "(1 - u) * (b - a) \<le> b - c" by (simp add: algebra_simps)
  then show "(1 - u) * (b - a) * (b - c) \<le> (b - c) * (b - c)"
    using assms by (intro mult_right_mono) auto
  show "0 \<le> (1 - u) * (b - a) * (b - c)" using assms by simp
  show "0 \<le> b - c" using assms by simp
qed



lemma f_Fin: "a < b \<Longrightarrow> (Fin c - Fin a) / (Fin b - Fin a) = Fin ((c - a) / (b - a))"
  by simp

lemma triangularValue_first:
  assumes "a < b" "u < (c - a) / (b - a)" "0 \<le> u * (b - a) * (c - a)"
  shows "triangularValue (Fin a) (Fin c) (Fin b) u = Fin (a + sqrt (u * (b - a) * (c - a)))"
proof -
  have "Fin u < (Fin c - Fin a) / (Fin b - Fin a)" using assms by (simp add: f_Fin)
  then have "triangularValue (Fin a) (Fin c) (Fin b) u
      = Fin a + Math_sqrt (Fin u * (Fin b - Fin a) * (Fin c - Fin a))"
    unfolding triangularValue_def Let_def by (rule if_P)
  also have "\<dots> = Fin (a + sqrt (u * (b - a) * (c - a)))"
    using assms(3) by (simp add: not_less)
  finally show ?thesis .
qed

lemma triangularValue_second:
  assumes "a < b" "\<not> u < (c - a) / (b - a)" "0 \<le> (1 - u) * (b - a) * (b - c)"
  shows "triangularValue (Fin a) (Fin c) (Fin b) u = Fin (b - sqrt ((1 - u) * (b - a) * (b - c)))"
proof -
  have "\<not> Fin u < (Fin c - Fin a) / (Fin b - Fin a)" using assms by (simp add: f_Fin)
  then have "triangularValue (Fin a) (Fin c) (Fin b) u
      = Fin b - Math_sqrt ((Fin 1 - Fin u) * (Fin b - Fin a) * (Fin b - Fin c))"
    unfolding triangularValue_def Let_def by (rule if_not_P)
  also have "\<dots> = Fin (b - sqrt ((1 - u) * (b - a) * (b - c)))"
    using assms(3) by (simp add: not_less)
  finally show ?thesis .
qed

lemma triangularValue_in_range:
  assumes "a \<le> c" "c \<le> b" "a < b" "0 \<le> u" "u \<le> 1"
  shows "\<exists>v. triangularValue (Fin a) (Fin c) (Fin b) u = Fin v \<and> a \<le> v \<and> v \<le> b"
proof (cases "u < (c - a) / (b - a)")
  case True
  have nn: "0 \<le> u * (b - a) * (c - a)" using assms by simp
  have "sqrt (u * (b - a) * (c - a)) \<le> c - a"
    using first_branch_le_mode assms True by simp
  moreover have "0 \<le> sqrt (u * (b - a) * (c - a))" using nn by simp
  ultimately show ?thesis using assms triangularValue_first [OF assms(3) True nn] by simp
next
  case False
  have nn: "0 \<le> (1 - u) * (b - a) * (b - c)" using assms by simp
  have "sqrt ((1 - u) * (b - a) * (b - c)) \<le> b - c"
    using second_branch_ge_mode assms False by simp
  moreover have "0 \<le> sqrt ((1 - u) * (b - a) * (b - c))" using nn by simp
  ultimately show ?thesis using assms triangularValue_second [OF assms(3) False nn] by simp
qed
lemma triangularSample_draw:
  "Math_random g = (u, g') \<Longrightarrow>
     triangularSample minv mode maxv g = (triangularValue minv mode maxv u, g')"
  by (simp add: triangularSample_def)

lemma triangularValue_flat: "triangularValue (Fin a) (Fin c) (Fin a) u = Fin a"
  by (simp add: triangularValue_def Let_def)

lemma triangularValue_monotone:
  assumes "a \<le> c" "c \<le> b" "a < b" "0 \<le> u1" "u1 \<le> u2" "u2 \<le> 1"
  shows "\<exists>v1 v2. triangularValue (Fin a) (Fin c) (Fin b) u1 = Fin v1
           \<and> triangularValue (Fin a) (Fin c) (Fin b) u2 = Fin v2 \<and> v1 \<le> v2"
proof -
  let ?f = "(c - a) / (b - a)"
  have n1: "0 \<le> u * (b - a) * (c - a)" if "0 \<le> u" for u using assms that by simp
  have n2: "0 \<le> (1 - u) * (b - a) * (b - c)" if "u \<le> 1" for u using assms that by simp
  have u1: "0 \<le> u1" "u1 \<le> 1" and u2: "0 \<le> u2" "u2 \<le> 1" using assms by simp_all
  consider "u2 < ?f" | "\<not> u1 < ?f" | "u1 < ?f" "\<not> u2 < ?f" by linarith
  then show ?thesis
  proof cases
    case 1
    then have "u1 < ?f" using assms by simp
    moreover have "u1 * (b - a) * (c - a) \<le> u2 * (b - a) * (c - a)"
      using assms by (intro mult_right_mono) auto
    then have "sqrt (u1 * (b - a) * (c - a)) \<le> sqrt (u2 * (b - a) * (c - a))"
      by (rule real_sqrt_le_mono)
    ultimately show ?thesis
      using 1 triangularValue_first [OF assms(3) _ n1] u1 u2 by simp
  next
    case 2
    then have "\<not> u2 < ?f" using assms by simp
    moreover have "(1 - u2) * (b - a) * (b - c) \<le> (1 - u1) * (b - a) * (b - c)"
      using assms by (intro mult_right_mono) auto
    then have "sqrt ((1 - u2) * (b - a) * (b - c)) \<le> sqrt ((1 - u1) * (b - a) * (b - c))"
      by (rule real_sqrt_le_mono)
    ultimately show ?thesis
      using 2 triangularValue_second [OF assms(3) _ n2] u1 u2 by simp
  next
    case 3
    have "sqrt (u1 * (b - a) * (c - a)) \<le> c - a"
      using first_branch_le_mode assms 3 by simp
    moreover have "sqrt ((1 - u2) * (b - a) * (b - c)) \<le> b - c"
      using second_branch_ge_mode assms 3 by simp
    ultimately show ?thesis
      using 3 triangularValue_first [OF assms(3) 3(1) n1] 
        triangularValue_second [OF assms(3) 3(2) n2] u1 u2 by simp
  qed
qed

lemma branches_meet:
  assumes "a \<le> c" "c \<le> b" "a < b"
  shows "Fin a + Math_sqrt (Fin ((c - a) / (b - a)) * (Fin b - Fin a) * (Fin c - Fin a)) = Fin c"
    and "Fin b - Math_sqrt ((Fin 1 - Fin ((c - a) / (b - a))) * (Fin b - Fin a) * (Fin b - Fin c))
           = Fin c"
proof -
  have 1: "(c - a) / (b - a) * (b - a) * (c - a) = (c - a) * (c - a)" using assms by simp
  have "(1 - (c - a) / (b - a)) * (b - a) = b - c" using assms by (simp add: field_simps)
  then have 2: "(1 - (c - a) / (b - a)) * (b - a) * (b - c) = (b - c) * (b - c)" by simp
  show "Fin a + Math_sqrt (Fin ((c - a) / (b - a)) * (Fin b - Fin a) * (Fin c - Fin a)) = Fin c"
    using assms by (simp add: 1 del: times_divide_eq_left)
  show "Fin b - Math_sqrt ((Fin 1 - Fin ((c - a) / (b - a))) * (Fin b - Fin a) * (Fin b - Fin c))
           = Fin c"
    using assms by (simp add: 2)
qed

section \<open>The histogram\<close>

lemma sum_count_update:
  assumes "i < length h"
  shows "sum_list (map count (h[i := (h ! i)\<lparr>count := count (h ! i) + 1\<rparr>]))
           = sum_list (map count h) + 1"
proof -
  have "map count (h[i := (h ! i)\<lparr>count := count (h ! i) + 1\<rparr>])
          = (map count h)[i := count (h ! i) + 1]"
    by (simp add: map_update)
  then show ?thesis using assms by (simp add: sum_list_update)
qed

lemma binIndex_in_range:
  assumes "0 < w" "lo \<le> v" "0 < bins"
  shows "\<exists>i. Math_min2 (Math_floor ((Fin v - Fin lo) / Fin w)) (Fin (real bins - 1)) = Fin (real i)
           \<and> i < bins"
proof -
  define k where "k = \<lfloor>(v - lo) / w\<rfloor>"
  have k0: "0 \<le> k" using assms by (simp add: k_def)
  define i where "i = nat (min k (int bins - 1))"
  have "i < bins" using assms k0 by (simp add: i_def)
  moreover have "min (real_of_int k) (real bins - 1) = real i"
    using assms k0 by (simp add: i_def min_def)
  ultimately show ?thesis using assms by (auto simp: k_def)
qed

lemma increment_ok:
  assumes "i < length h"
  shows "increment h (Fin (real i)) = Inr (h[i := (h ! i)\<lparr>count := count (h ! i) + 1\<rparr>])"
  using assms by (simp add: increment_def)

lemma forEach_ok:
  assumes "0 < w" "0 < bins" "length h = bins" "\<forall>v \<in> set vs. lo \<le> v"
  shows "\<exists>h'. forEach (Fin lo) (Fin w) bins (map Fin vs) h = Inr h' \<and> length h' = bins
            \<and> sum_list (map count h') = sum_list (map count h) + length vs"
  using assms(3,4)
proof (induction vs arbitrary: h)
  case Nil
  then show ?case by simp
next
  case (Cons v vs)
  from Cons.prems have "lo \<le> v" by simp
  with assms(1,2) obtain i where
    i: "Math_min2 (Math_floor ((Fin v - Fin lo) / Fin w)) (Fin (real bins - 1)) = Fin (real i)"
    and "i < bins"
    using binIndex_in_range by blast
  then have il: "i < length h" using Cons.prems by simp
  define h1 where "h1 = h[i := (h ! i)\<lparr>count := count (h ! i) + 1\<rparr>]"
  have step: "forEach (Fin lo) (Fin w) bins (map Fin (v # vs)) h
                = forEach (Fin lo) (Fin w) bins (map Fin vs) h1"
    using i increment_ok [OF il] by (simp add: h1_def del: Math_floor.simps divide_number.simps)
  have "length h1 = bins" using Cons.prems by (simp add: h1_def)
  moreover have "\<forall>v \<in> set vs. lo \<le> v" using Cons.prems by simp
  ultimately obtain h' where
    "forEach (Fin lo) (Fin w) bins (map Fin vs) h1 = Inr h'" "length h' = bins"
    "sum_list (map count h') = sum_list (map count h1) + length vs"
    using Cons.IH by blast
  moreover have "sum_list (map count h1) = sum_list (map count h) + 1"
    unfolding h1_def using il by (rule sum_count_update)
  ultimately show ?case using step by simp
qed

lemma createHistogram_counts:
  assumes "0 < bins" "vs \<noteq> []" "Min (set vs) < Max (set vs)"
  shows "\<exists>h. createHistogram (map Fin vs) bins = Inr h \<and> length h = bins
           \<and> sum_list (map count h) = length vs"
proof -
  define lo where "lo = Min (set vs)"
  define w where "w = (Max (set vs) - lo) / real bins"
  have w: "0 < w" using assms by (simp add: w_def lo_def)
  have lo: "\<forall>v \<in> set vs. lo \<le> v" by (simp add: lo_def)
  define h0 where "h0 = map (\<lambda>i. \<lparr>bin = ToString (Math_round (Fin lo + Fin (real i) * Fin w))
                                     @ '' - ''
                                     @ ToString (Math_round (Fin lo + Fin (real (i + 1)) * Fin w)),
                                count = 0\<rparr>) [0..<bins]"
  have eq: "createHistogram (map Fin vs) bins = forEach (Fin lo) (Fin w) bins (map Fin vs) h0"
    using assms(1,2)
    by (simp add: createHistogram_def Math_min_Fin Math_max_Fin Let_def lo_def w_def h0_def
        del: ToString.simps Math_round.simps)
  have len: "length h0 = bins" by (simp add: h0_def)
  have zero: "sum_list (map count h0) = 0" by (simp add: h0_def o_def)
  from forEach_ok [OF w assms(1) len lo] obtain h' where
    "forEach (Fin lo) (Fin w) bins (map Fin vs) h0 = Inr h'" "length h' = bins"
    "sum_list (map count h') = sum_list (map count h0) + length vs"
    by blast
  then show ?thesis unfolding eq zero by simp
qed

lemma createHistogram_flat: "createHistogram (replicate (Suc n) (Fin v)) bins = Inl TypeError"
proof -
  have mn: "Math_min (replicate (Suc n) (Fin v)) = Fin v"
    by (induction n) (simp_all add: Math_min_def Math_min2_def)
  have mx: "Math_max (replicate (Suc n) (Fin v)) = Fin v"
    by (induction n) (simp_all add: Math_max_def Math_max2_def)
  show ?thesis
    by (simp add: createHistogram_def mn mx Let_def Math_min2_def increment_def
        del: replicate.simps ToString.simps Math_round.simps)
      (simp add: Math_min2_def increment_def)
qed


section \<open>The loop\<close>

lemma loop_body_eq:
  "loop_body bc bt mn mx s =
     \<lparr>costs = costs s @ [triangularValue (bc * mn) bc (bc * mx) (generator s 0)],
      times = times s @ [triangularValue (bt * mn) bt (bt * mx) (generator s 1)],
      successes =
        (if triangularValue (bc * mn) bc (bc * mx) (generator s 0) \<le> bc * Fin (6 / 5)
            \<and> triangularValue (bt * mn) bt (bt * mx) (generator s 1) \<le> bt * Fin (6 / 5)
         then successes s + 1 else successes s),
      generator = (\<lambda>k. generator s (k + 2))\<rparr>"
  by (simp add: loop_body_def triangularSample_def Math_random_def Let_def)


lemma for_loop_length:
  "length (costs (for_loop bc bt mn mx n s)) = length (costs s) + n"
  "length (times (for_loop bc bt mn mx n s)) = length (times s) + n"
  by (induction n arbitrary: s) (simp_all add: loop_body_eq)

lemma for_loop_successes:
  "successes (for_loop bc bt mn mx n s) \<le> successes s + n"
proof (induction n arbitrary: s)
  case 0
  show ?case by simp
next
  case (Suc n)
  have "successes (loop_body bc bt mn mx s) \<le> successes s + 1" by (simp add: loop_body_eq)
  with Suc [of "loop_body bc bt mn mx s"] show ?case by simp
qed


lemma uniform_shift: "uniform g \<Longrightarrow> uniform (\<lambda>k. g (k + m))"
  by (simp add: uniform_def)

lemma for_loop_costs_pred:
  assumes "\<And>u. 0 \<le> u \<Longrightarrow> u < 1 \<Longrightarrow> P (triangularValue (bc * mn) bc (bc * mx) u)"
    and "uniform (generator s)" "\<forall>x \<in> set (costs s). P x"
  shows "\<forall>x \<in> set (costs (for_loop bc bt mn mx n s)). P x"
  using assms(2,3)
proof (induction n arbitrary: s)
  case 0
  then show ?case by simp
next
  case (Suc n)
  let ?t = "loop_body bc bt mn mx s"
  have "0 \<le> generator s 0" "generator s 0 < 1" using Suc.prems(1) by (simp_all add: uniform_def)
  then have "P (triangularValue (bc * mn) bc (bc * mx) (generator s 0))" by (rule assms(1))
  then have "\<forall>x \<in> set (costs ?t). P x" using Suc.prems(2) by (simp add: loop_body_eq)
  moreover have "uniform (generator ?t)"
    using uniform_shift [OF Suc.prems(1), of 2] by (simp add: loop_body_eq)
  ultimately show ?case using Suc.IH [of ?t] by simp
qed

lemma for_loop_constant:
  assumes "generator s = constant_draws u"
  shows "costs (for_loop bc bt mn mx n s)
           = costs s @ replicate n (triangularValue (bc * mn) bc (bc * mx) u)
       \<and> times (for_loop bc bt mn mx n s)
           = times s @ replicate n (triangularValue (bt * mn) bt (bt * mx) u)"
  using assms
proof (induction n arbitrary: s)
  case 0
  then show ?case by simp
next
  case (Suc n)
  let ?t = "loop_body bc bt mn mx s"
  have "generator ?t = constant_draws u"
    using Suc.prems by (simp add: loop_body_eq constant_draws_def)
  from Suc.IH [OF this] show ?case
    using Suc.prems by (simp add: loop_body_eq constant_draws_def replicate_app_Cons_same)
qed

lemma for_loop_draws_then_zeros:
  "costs (for_loop bc bt mn mx (Suc n)
            \<lparr>costs = [], times = [], successes = 0, generator = draws_then_zeros 2 u\<rparr>)
     = triangularValue (bc * mn) bc (bc * mx) u
         # replicate n (triangularValue (bc * mn) bc (bc * mx) 0)"
  "times (for_loop bc bt mn mx (Suc n)
            \<lparr>costs = [], times = [], successes = 0, generator = draws_then_zeros 2 u\<rparr>)
     = triangularValue (bt * mn) bt (bt * mx) u
         # replicate n (triangularValue (bt * mn) bt (bt * mx) 0)"
proof -
  let ?t = "loop_body bc bt mn mx
              \<lparr>costs = [], times = [], successes = 0, generator = draws_then_zeros 2 u\<rparr>"
  have g: "generator ?t = constant_draws 0"
    by (simp add: loop_body_eq draws_then_zeros_def constant_draws_def)
  have c: "costs ?t = [triangularValue (bc * mn) bc (bc * mx) u]"
    and t: "times ?t = [triangularValue (bt * mn) bt (bt * mx) u]"
    by (simp_all add: loop_body_eq draws_then_zeros_def)
  show "costs (for_loop bc bt mn mx (Suc n)
            \<lparr>costs = [], times = [], successes = 0, generator = draws_then_zeros 2 u\<rparr>)
     = triangularValue (bc * mn) bc (bc * mx) u
         # replicate n (triangularValue (bc * mn) bc (bc * mx) 0)"
    using for_loop_constant [OF g, of bc bt mn mx n] c by simp
  show "times (for_loop bc bt mn mx (Suc n)
            \<lparr>costs = [], times = [], successes = 0, generator = draws_then_zeros 2 u\<rparr>)
     = triangularValue (bt * mn) bt (bt * mx) u
         # replicate n (triangularValue (bt * mn) bt (bt * mx) 0)"
    using for_loop_constant [OF g, of bc bt mn mx n] t by simp
qed

section \<open>The run\<close>


lemma foldl_plus_Fin: "foldl (+) (Fin a) (map Fin vs) = Fin (a + sum_list vs)"
  by (induction vs arbitrary: a) (simp_all add: add.assoc)


lemma runMonteCarlo_returns:
  assumes S: "S = for_loop bc bt (Fin (4 / 5)) (Fin 1 + rf / Fin 50) n
                    \<lparr>costs = [], times = [], successes = 0, generator = g\<rparr>"
    and cs: "costs S = map Fin cs" "Min (set cs) < Max (set cs)"
    and ts: "times S = map Fin ts" "Min (set ts) < Max (set ts)"
    and n: "0 < n"
  shows "\<exists>r. fst (runMonteCarlo bc bt rf n g) = Inr r
           \<and> probabilityOfSuccess r = Fin (real (successes S) / real n)
           \<and> expectedCost r = Fin (sum_list cs / real n)
           \<and> expectedTime r = Fin (sum_list ts / real n)
           \<and> length (costDistribution r) = 10
           \<and> sum_list (map count (costDistribution r)) = n
           \<and> length (timeDistribution r) = 10
           \<and> sum_list (map count (timeDistribution r)) = n"
proof -
  have "length (costs S) = n" "length (times S) = n"
    unfolding S by (simp_all add: for_loop_length)
  then have len: "length cs = n" "length ts = n" using cs(1) ts(1) by simp_all
  then have ne: "cs \<noteq> []" "ts \<noteq> []" using n by auto
  obtain cd where cd: "createHistogram (map Fin cs) 10 = Inr cd" "length cd = 10"
    "sum_list (map count cd) = length cs"
    using createHistogram_counts [OF _ ne(1) cs(2), of 10] by auto
  obtain td where td: "createHistogram (map Fin ts) 10 = Inr td" "length td = 10"
    "sum_list (map count td) = length ts"
    using createHistogram_counts [OF _ ne(2) ts(2), of 10] by auto
  have "fst (runMonteCarlo bc bt rf n g) =
          Inr \<lparr>probabilityOfSuccess = Fin (real (successes S)) / Fin (real n),
               expectedCost = foldl (+) (Fin 0) (map Fin cs) / Fin (real n),
               expectedTime = foldl (+) (Fin 0) (map Fin ts) / Fin (real n),
               costDistribution = cd, timeDistribution = td, riskHeatmap = []\<rparr>"
    unfolding runMonteCarlo_def Let_def S [symmetric] by (simp add: cs(1) ts(1) cd(1) td(1))
  then show ?thesis using n len cd td by (simp add: foldl_plus_Fin)
qed

section \<open>Claims about the sampler\<close>

text \<open>
  With the exact operations, for \<open>min \<le> mode \<le> max\<close> with \<open>min < max\<close> and a draw in
  \<open>[0, 1)\<close> the value of the formula lies in the closed interval \<open>[min, max]\<close>. With the
  operations of the source it need not: section \<open>Claims about the values of the
  samples\<close>.
\<close>
lemma triangularSample_in_range_exact:
  assumes "a \<le> c" "c \<le> b" "a < b" and "Math_random g = (u, g')" and "0 \<le> u" "u < 1"
  shows "\<exists>v. triangularSample (Fin a) (Fin c) (Fin b) g = (Fin v, g') \<and> a \<le> v \<and> v \<le> b"
  using triangularValue_in_range [of a c b u] assms by (auto simp: triangularSample_draw)

text \<open>
  C6. With \<open>max = min\<close> the sampler returns \<open>min\<close> for every draw, whatever the mode:
  the fraction \<open>f\<close> is NaN or infinite, and in either branch the square root is that of
  zero. In particular \<open>triangularSample(5, 5, 5)\<close> is 5.
\<close>
theorem triangularSample_degenerate:
  "triangularValue (Fin a) (Fin c) (Fin a) u = Fin a
   \<and> fst (triangularSample (Fin a) (Fin c) (Fin a) g) = Fin a
   \<and> fst (triangularSample (Fin 5) (Fin 5) (Fin 5) g) = Fin 5"
  by (simp add: triangularSample_def triangularValue_flat split_def Let_def)



text \<open>
  With the exact operations the value does not decrease with the draw, and at
  \<open>u = (mode - min) / (max - min)\<close> the formulas of both branches give the mode. With the
  operations of the source the value can decrease: section \<open>Claims about the values
  of the samples\<close>.
\<close>
lemma triangularSample_monotone_exact:
  assumes "a \<le> c" "c \<le> b" "a < b"
    and "Math_random g1 = (u1, h1)" "Math_random g2 = (u2, h2)"
    and "0 \<le> u1" "u1 \<le> u2" "u2 < 1"
  shows "(\<exists>v1 v2. triangularSample (Fin a) (Fin c) (Fin b) g1 = (Fin v1, h1)
            \<and> triangularSample (Fin a) (Fin c) (Fin b) g2 = (Fin v2, h2) \<and> v1 \<le> v2)
    \<and> Fin a + Math_sqrt (Fin ((c - a) / (b - a)) * (Fin b - Fin a) * (Fin c - Fin a)) = Fin c
    \<and> Fin b - Math_sqrt ((Fin 1 - Fin ((c - a) / (b - a))) * (Fin b - Fin a) * (Fin b - Fin c))
         = Fin c"
proof -
  have "u2 \<le> 1" using assms by simp
  from triangularValue_monotone [OF assms(1-3) assms(6,7) this]
  have "\<exists>v1 v2. triangularSample (Fin a) (Fin c) (Fin b) g1 = (Fin v1, h1)
            \<and> triangularSample (Fin a) (Fin c) (Fin b) g2 = (Fin v2, h2) \<and> v1 \<le> v2"
    using assms(4,5) by (simp add: triangularSample_draw)
  then show ?thesis using branches_meet [OF assms(1-3)] by blast
qed

section \<open>Claims about the histogram and the run\<close>

lemma createHistogram_singleton: "createHistogram [x] bins = Inl TypeError"
  by (cases x)
    (simp_all add: createHistogram_def Math_min_def Math_max_def Math_min2_def Math_max2_def
      Let_def increment_def minus_number_def del: ToString.simps Math_round.simps)

lemma runMonteCarlo_one_iteration: "fst (runMonteCarlo bc bt rf (Suc 0) g) = Inl TypeError"
proof -
  have "\<exists>x. costs (for_loop bc bt (Fin (4 / 5)) (Fin 1 + rf / Fin 50) (Suc 0)
                 \<lparr>costs = [], times = [], successes = 0, generator = g\<rparr>) = [x]"
    by (simp add: loop_body_eq)
  then obtain x where "costs (for_loop bc bt (Fin (4 / 5)) (Fin 1 + rf / Fin 50) (Suc 0)
                 \<lparr>costs = [], times = [], successes = 0, generator = g\<rparr>) = [x]" ..
  then show ?thesis
    unfolding runMonteCarlo_def Let_def by (simp add: createHistogram_singleton)
qed

text \<open>
  C1. The bin counts do not always sum to the number of samples: when all samples are
  equal, \<open>range\<close> and \<open>binSize\<close> are 0, the bin index of the first sample is
  \<open>Math.min(Math.floor(0 / 0), bins - 1)\<close>, which is NaN, \<open>histogram[NaN]\<close> is
  undefined and the increment throws a TypeError. Here for the samples 5, 5, 5 and 10
  bins. (For samples that are not all equal the counts do sum to the number of samples:
  \<open>createHistogram_counts\<close>.)
\<close>
theorem createHistogram_identical_samples:
  "createHistogram [Fin 5, Fin 5, Fin 5] 10 = Inl TypeError"
  using createHistogram_flat [of 2 5 10] by (simp add: eval_nat_numeral)

text \<open>
  C4. With a zero range the samples are not put into bin 0: for one or more copies of
  the same finite sample and any number of bins \<open>createHistogram\<close> throws a TypeError,
  and so does every call of \<open>runMonteCarlo\<close> with \<open>iterations = 1\<close>, whatever the
  other arguments and the draws.
\<close>
theorem createHistogram_zero_range:
  "createHistogram (replicate (Suc n) (Fin v)) bins = Inl TypeError
   \<and> fst (runMonteCarlo baseCost baseTime riskFactor 1 g) = Inl TypeError"
  using createHistogram_flat [of n v bins]
    runMonteCarlo_one_iteration [of baseCost baseTime riskFactor g] by simp

text \<open>
  With the exact operations, \<open>riskFactor = 0\<close>, a positive \<open>baseCost\<close> and draws in
  \<open>[0, 1)\<close>, the loop collects one cost sample per iteration and each is at most
  \<open>baseCost\<close>. With the operations of the source a cost sample can be infinite:
  section \<open>Claims about the values of the samples\<close>.
\<close>
lemma cost_draws_at_risk_zero_exact:
  assumes "0 < b" and "uniform g"
  shows "length (costs (for_loop (Fin b) baseTime (Fin (4 / 5)) (Fin 1 + Fin 0 / Fin 50) n
                   \<lparr>costs = [], times = [], successes = 0, generator = g\<rparr>)) = n
    \<and> (\<forall>x \<in> set (costs (for_loop (Fin b) baseTime (Fin (4 / 5)) (Fin 1 + Fin 0 / Fin 50) n
                   \<lparr>costs = [], times = [], successes = 0, generator = g\<rparr>)).
          \<exists>v. x = Fin v \<and> v \<le> b)"
proof -
  have mx: "Fin 1 + Fin 0 / Fin 50 = Fin 1" by simp
  have draw: "\<exists>v. triangularValue (Fin b * Fin (4 / 5)) (Fin b) (Fin b * Fin 1) u = Fin v \<and> v \<le> b"
    if "0 \<le> u" "u < 1" for u
    using triangularValue_in_range [of "b * (4 / 5)" b b u] assms(1) that by auto
  have "\<forall>x \<in> set (costs (for_loop (Fin b) baseTime (Fin (4 / 5)) (Fin 1) n
                   \<lparr>costs = [], times = [], successes = 0, generator = g\<rparr>)).
          \<exists>v. x = Fin v \<and> v \<le> b"
    by (rule for_loop_costs_pred) (use draw assms(2) in simp_all)
  then show ?thesis unfolding mx by (simp add: for_loop_length)
qed

text \<open>
  C8. For \<open>iterations \<ge> 1\<close>, the \<open>probabilityOfSuccess\<close> of every result that
  \<open>runMonteCarlo\<close> returns is a finite number in \<open>[0, 1]\<close>; this holds for all values of
  the other arguments and all draws.
\<close>
theorem probabilityOfSuccess_unit_interval:
  assumes "0 < iterations"
    and "fst (runMonteCarlo baseCost baseTime riskFactor iterations g) = Inr r"
  shows "\<exists>p. probabilityOfSuccess r = Fin p \<and> 0 \<le> p \<and> p \<le> 1"
proof -
  define S where "S = for_loop baseCost baseTime (Fin (4 / 5)) (Fin 1 + riskFactor / Fin 50)
                        iterations \<lparr>costs = [], times = [], successes = 0, generator = g\<rparr>"
  have "successes S \<le> iterations"
    using for_loop_successes [of baseCost baseTime "Fin (4 / 5)" "Fin 1 + riskFactor / Fin 50"
        iterations "\<lparr>costs = [], times = [], successes = 0, generator = g\<rparr>"]
    by (simp add: S_def)
  then have p: "real (successes S) / real iterations \<le> 1" using assms(1) by simp
  have "probabilityOfSuccess r = Fin (real (successes S)) / Fin (real iterations)"
    using assms(2) unfolding runMonteCarlo_def Let_def S_def [symmetric]
    by (auto split: sum.splits)
  then have "probabilityOfSuccess r = Fin (real (successes S) / real iterations)"
    using assms(1) by simp
  then show ?thesis using p by simp
qed

lemma sqrt_numerals:
  "sqrt 9 = 3" "sqrt 100 = 10" "sqrt 900 = 30" "sqrt 10000 = 100" "sqrt 1000000 = 1000"
  by (rule real_sqrt_unique; simp)+

lemma for_loop_two:
  "for_loop bc bt mn mx 2 s = loop_body bc bt mn mx (loop_body bc bt mn mx s)"
  by (simp add: eval_nat_numeral)

theorem probabilityOfSuccess_unit_interval_witness:
  "\<exists>r p. fst (runMonteCarlo (Fin 1000) (Fin 30) (Fin 50) 2 (zeros_then_draws 2 (1 / 6))) = Inr r
      \<and> probabilityOfSuccess r = Fin p \<and> 0 \<le> p \<and> p \<le> 1"
proof -
  define S where "S = for_loop (Fin 1000) (Fin 30) (Fin (4 / 5)) (Fin 1 + Fin 50 / Fin 50) 2
      \<lparr>costs = [], times = [], successes = 0, generator = zeros_then_draws 2 (1 / 6)\<rparr>"
  have c: "costs S = map Fin [800, 1000]" and t: "times S = map Fin [24, 30]"
    by (simp_all add: S_def for_loop_two loop_body_eq zeros_then_draws_def triangularValue_def
        sqrt_numerals)
  obtain r where r: "fst (runMonteCarlo (Fin 1000) (Fin 30) (Fin 50) 2
                             (zeros_then_draws 2 (1 / 6))) = Inr r"
    using runMonteCarlo_returns [OF S_def c _ t] by auto
  show ?thesis
    using probabilityOfSuccess_unit_interval [OF _ r] r by simp
qed

lemma sample_values:
  "triangularValue (Fin 1000 * Fin (4 / 5)) (Fin 1000) (Fin 1000 * (Fin 1 + Fin 50 / Fin 50)) 0
     = Fin 800"
  "triangularValue (Fin 1000 * Fin (4 / 5)) (Fin 1000) (Fin 1000 * (Fin 1 + Fin 50 / Fin 50)) (1 / 6)
     = Fin 1000"
  "triangularValue (Fin 1000 * Fin (4 / 5)) (Fin 1000) (Fin 1000 * (Fin 1 + Fin 50 / Fin 50)) (1 / 24)
     = Fin 900"
  "triangularValue (Fin 30 * Fin (4 / 5)) (Fin 30) (Fin 30 * (Fin 1 + Fin 50 / Fin 50)) 0
     = Fin 24"
  "triangularValue (Fin 30 * Fin (4 / 5)) (Fin 30) (Fin 30 * (Fin 1 + Fin 50 / Fin 50)) (1 / 6)
     = Fin 30"
  "triangularValue (Fin 30 * Fin (4 / 5)) (Fin 30) (Fin 30 * (Fin 1 + Fin 50 / Fin 50)) (1 / 24)
     = Fin 27"
  by (simp_all add: triangularValue_def sqrt_numerals)

lemma long_run:
  assumes cu: "triangularValue (Fin 1000 * Fin (4 / 5)) (Fin 1000)
                 (Fin 1000 * (Fin 1 + Fin 50 / Fin 50)) u = Fin c"
    and tu: "triangularValue (Fin 30 * Fin (4 / 5)) (Fin 30)
                 (Fin 30 * (Fin 1 + Fin 50 / Fin 50)) u = Fin t"
    and "800 < c" "24 < t"
  shows "\<exists>r. fst (runMonteCarlo (Fin 1000) (Fin 30) (Fin 50) 10000 (draws_then_zeros 2 u)) = Inr r
           \<and> expectedCost r = Fin ((c + 7999200) / 10000)"
proof -
  define S where "S = for_loop (Fin 1000) (Fin 30) (Fin (4 / 5)) (Fin 1 + Fin 50 / Fin 50) 10000
      \<lparr>costs = [], times = [], successes = 0, generator = draws_then_zeros 2 u\<rparr>"
  have n: "(10000::nat) = Suc 9999" by simp
  have c: "costs S = map Fin (c # replicate 9999 800)"
    unfolding S_def n for_loop_draws_then_zeros using cu sample_values(1) by simp
  have t: "times S = map Fin (t # replicate 9999 24)"
    unfolding S_def n for_loop_draws_then_zeros using tu sample_values(4) by simp
  have mc: "Min (set (c # replicate 9999 800)) < Max (set (c # replicate 9999 800))"
    using assms(3) by simp
  have mt: "Min (set (t # replicate 9999 24)) < Max (set (t # replicate 9999 24))"
    using assms(4) by simp
  from runMonteCarlo_returns [OF S_def c mc t mt]
  obtain r where "fst (runMonteCarlo (Fin 1000) (Fin 30) (Fin 50) 10000 (draws_then_zeros 2 u)) = Inr r"
    "expectedCost r = Fin (sum_list (c # replicate 9999 800) / real (10000::nat))"
    by auto
  then show ?thesis by (simp add: sum_list_replicate)
qed

text \<open>
  The result does depend on the draws: two runs with \<open>baseCost = 1000\<close>,
  \<open>baseTime = 30\<close>, \<open>riskFactor = 50\<close>, \<open>iterations = 10000\<close> whose first cost and time
  draws are \<open>1/6\<close> in one and \<open>1/24\<close> in the other, all later draws being 0, return
  results with different expected costs.
\<close>
lemma runMonteCarlo_depends_on_draws:
  "fst (runMonteCarlo (Fin 1000) (Fin 30) (Fin 50) 10000 (draws_then_zeros 2 (1 / 6)))
     \<noteq> fst (runMonteCarlo (Fin 1000) (Fin 30) (Fin 50) 10000 (draws_then_zeros 2 (1 / 24)))"
proof -
  obtain r1 where r1:
    "fst (runMonteCarlo (Fin 1000) (Fin 30) (Fin 50) 10000 (draws_then_zeros 2 (1 / 6))) = Inr r1"
    "expectedCost r1 = Fin ((1000 + 7999200) / 10000)"
    using long_run [OF sample_values(2) sample_values(5)] by auto
  obtain r2 where r2:
    "fst (runMonteCarlo (Fin 1000) (Fin 30) (Fin 50) 10000 (draws_then_zeros 2 (1 / 24))) = Inr r2"
    "expectedCost r2 = Fin ((900 + 7999200) / 10000)"
    using long_run [OF sample_values(3) sample_values(6)] by auto
  have "expectedCost r1 \<noteq> expectedCost r2" unfolding r1(2) r2(2) by simp
  then have "r1 \<noteq> r2" by auto
  then show ?thesis unfolding r1(1) r2(1) by simp
qed







section \<open>Rounding to binary64\<close>

text \<open>
  How \<open>round64\<close> is evaluated: at a real whose exponent is \<open>e\<close> and that is nearer than
  half a unit in the last place to \<open>n * 2^(e - 52)\<close> (or as near to it as to its
  neighbour, with \<open>n\<close> even), at a square root, and at a real of magnitude \<open>2^1024\<close> or
  more.
\<close>

lemma rne_unique: "\<bar>q - of_int n\<bar> < 1 / 2 \<Longrightarrow> rne q = n"
proof -
  assume a: "\<bar>q - of_int n\<bar> < 1 / 2"
  consider "\<lfloor>q\<rfloor> = n" | "\<lfloor>q\<rfloor> = n - 1" using a by linarith
  then show ?thesis
  proof cases
    case 1
    have "q - of_int \<lfloor>q\<rfloor> < 1 / 2" using a unfolding 1 by linarith
    then show ?thesis using 1 by (simp add: rne_def Let_def)
  next
    case 2
    have "of_int (n - 1) = (of_int n :: real) - 1" by simp
    then have "1 / 2 < q - of_int \<lfloor>q\<rfloor>" using a unfolding 2 by linarith
    then have "\<not> q - of_int \<lfloor>q\<rfloor> < 1 / 2" by simp
    then show ?thesis using \<open>1 / 2 < q - of_int \<lfloor>q\<rfloor>\<close> 2 by (simp add: rne_def Let_def)
  qed
qed

lemma rne_close: "\<bar>q - of_int (rne q)\<bar> \<le> 1 / 2"
proof -
  have "0 \<le> q - of_int \<lfloor>q\<rfloor>" "q - of_int \<lfloor>q\<rfloor> < 1" by linarith+
  then show ?thesis by (auto simp: rne_def Let_def)
qed

lemma powr_powi: "0 < x \<Longrightarrow> x powr of_int n = (x::real) powi n"
  using powr_real_of_int' [of x n] by simp

lemma floor_log2_eq:
  assumes "2 powi e \<le> x" "x < 2 powi (e + 1)"
  shows "\<lfloor>log 2 x\<rfloor> = e"
proof -
  have "(0::real) < 2 powi e" by simp
  then have x: "0 < x" using assms(1) by linarith
  have "2 powr (of_int e) \<le> x" using assms(1) by (simp only: powr_powi zero_less_numeral)
  then have 1: "of_int e \<le> log 2 x" using x by (simp add: le_log_iff)
  have "x < 2 powr (of_int (e + 1))" using assms(2) by (simp only: powr_powi zero_less_numeral)
  then have 2: "log 2 x < of_int (e + 1)" using x by (simp add: log_less_iff)
  from 1 2 show ?thesis by (simp add: floor_eq_iff)
qed

lemma round64_eval:
  assumes "2 powi e \<le> \<bar>x\<bar>" "\<bar>x\<bar> < 2 powi (e + 1)" "- 1022 \<le> e"
    and near: "\<bar>x - of_int n * 2 powi (e - 52)\<bar> < 2 powi (e - 53)"
    and fin: "\<bar>of_int n * 2 powi (e - 52)\<bar> < (2::real) powi 1024"
  shows "round64 x = Fin (of_int n * 2 powi (e - 52))"
proof -
  have "0 < \<bar>x\<bar>" using less_le_trans [OF zero_less_power_int assms(1)] by simp
  then have x0: "x \<noteq> 0" by simp
  have e: "max \<lfloor>log 2 \<bar>x\<bar>\<rfloor> (- 1022) = e"
    using floor_log2_eq [OF assms(1,2)] assms(3) by simp
  have u: "(0::real) < 2 powi (e - 52)" by simp
  have half: "(2::real) powi (e - 53) = 2 powi (e - 52) / 2"
    by (simp add: power_int_diff)
  have "\<bar>x / 2 powi (e - 52) - of_int n\<bar> = \<bar>x - of_int n * 2 powi (e - 52)\<bar> / 2 powi (e - 52)"
    using u by (simp add: field_simps abs_divide)
  also have "\<dots> < 1 / 2" using near u unfolding half by (simp add: field_simps)
  finally have "rne (x / 2 powi (e - 52)) = n" by (rule rne_unique)
  then show ?thesis using x0 fin by (simp add: round64_def e Let_def)
qed

lemma round64_overflow:
  assumes "2 powi 1024 \<le> \<bar>x\<bar>"
  shows "round64 x = (if 0 < x then PosInf else NegInf)"
proof -
  have "0 < \<bar>x\<bar>" using less_le_trans [OF zero_less_power_int assms] by simp
  then have x0: "x \<noteq> 0" by simp
  define e where "e = \<lfloor>log 2 \<bar>x\<bar>\<rfloor>"
  have ax: "0 < \<bar>x\<bar>" using x0 by simp
  have le: "of_int e \<le> log 2 \<bar>x\<bar>" unfolding e_def by simp
  then have "2 powr (of_int e) \<le> \<bar>x\<bar>" using ax by (simp add: le_log_iff)
  then have lo: "2 powi e \<le> \<bar>x\<bar>" by (simp only: powr_powi zero_less_numeral)
  have "(2::real) powr (of_int 1024) \<le> \<bar>x\<bar>"
    using assms by (simp only: powr_powi zero_less_numeral)
  then have "of_int 1024 \<le> log 2 \<bar>x\<bar>" using ax by (simp add: le_log_iff)
  then have e1024: "1024 \<le> e" unfolding e_def by (simp add: le_floor_iff)
  then have me: "max e (- 1022) = e" by simp
  define ulp where "ulp = (2::real) powi (e - 52)"
  have u: "0 < ulp" by (simp add: ulp_def)
  have two52: "2 powi e = 2 ^ 52 * ulp"
    unfolding ulp_def by (simp add: power_int_diff)
  have q: "2 ^ 52 \<le> \<bar>x\<bar> / ulp" using lo u unfolding two52 by (simp add: field_simps)
  have "\<bar>x / ulp\<bar> - 1 / 2 \<le> \<bar>of_int (rne (x / ulp))\<bar>"
    using rne_close [of "x / ulp"] by linarith
  then have "2 ^ 52 - 1 / 2 \<le> \<bar>real_of_int (rne (x / ulp))\<bar>"
    using q u by (simp add: abs_divide)
  then have "real_of_int (2 ^ 52 - 1) < real_of_int \<bar>rne (x / ulp)\<bar>" by simp
  then have "2 ^ 52 - 1 < \<bar>rne (x / ulp)\<bar>" by (simp only: of_int_less_iff)
  then have "2 ^ 52 \<le> \<bar>rne (x / ulp)\<bar>" by simp
  then have "real_of_int (2 ^ 52) \<le> real_of_int \<bar>rne (x / ulp)\<bar>" by (simp only: of_int_le_iff)
  then have "2 ^ 52 \<le> \<bar>real_of_int (rne (x / ulp))\<bar>" by simp
  then have "2 ^ 52 * ulp \<le> \<bar>of_int (rne (x / ulp)) * ulp\<bar>"
    using u by (simp add: abs_mult)
  moreover have "(2::real) powi 1024 \<le> 2 powi e" using e1024 by (intro power_int_increasing) auto
  ultimately have "2 powi 1024 \<le> \<bar>of_int (rne (x / ulp)) * ulp\<bar>"
    unfolding two52 by linarith
  then show ?thesis using x0
    unfolding round64_def e_def [symmetric] me Let_def ulp_def [symmetric] by simp
qed

lemma rne_tie: "\<bar>q - of_int n\<bar> = 1 / 2 \<Longrightarrow> even n \<Longrightarrow> rne q = n"
proof -
  assume a: "\<bar>q - of_int n\<bar> = 1 / 2" and ev: "even n"
  consider "q = of_int n + 1 / 2" | "q = of_int n - 1 / 2" using a by linarith
  then show ?thesis
  proof cases
    case 1
    then have "\<lfloor>q\<rfloor> = n" by linarith
    then show ?thesis using 1 ev by (simp add: rne_def Let_def)
  next
    case 2
    then have f: "\<lfloor>q\<rfloor> = n - 1" by linarith
    have "q - of_int (n - 1) = 1 / 2" using 2 by simp
    then show ?thesis using f ev by (simp add: rne_def Let_def)
  qed
qed

lemma round64_tie:
  assumes "2 powi e \<le> \<bar>x\<bar>" "\<bar>x\<bar> < 2 powi (e + 1)" "- 1022 \<le> e"
    and tie: "\<bar>x - of_int n * 2 powi (e - 52)\<bar> = 2 powi (e - 53)" "even n"
    and fin: "\<bar>of_int n * 2 powi (e - 52)\<bar> < (2::real) powi 1024"
  shows "round64 x = Fin (of_int n * 2 powi (e - 52))"
proof -
  have "0 < \<bar>x\<bar>" using less_le_trans [OF zero_less_power_int assms(1)] by simp
  then have x0: "x \<noteq> 0" by simp
  have e: "max \<lfloor>log 2 \<bar>x\<bar>\<rfloor> (- 1022) = e"
    using floor_log2_eq [OF assms(1,2)] assms(3) by simp
  have u: "(0::real) < 2 powi (e - 52)" by simp
  have half: "(2::real) powi (e - 53) = 2 powi (e - 52) / 2"
    by (simp add: power_int_diff)
  have "\<bar>x / 2 powi (e - 52) - of_int n\<bar> = \<bar>x - of_int n * 2 powi (e - 52)\<bar> / 2 powi (e - 52)"
    using u by (simp add: field_simps abs_divide)
  also have "\<dots> = 1 / 2" using u unfolding tie(1) half by simp
  finally have "rne (x / 2 powi (e - 52)) = n" using tie(2) by (rule rne_tie)
  then show ?thesis using x0 fin by (simp add: round64_def e Let_def)
qed

lemma round64_sqrt:
  assumes "(2 powi e)\<^sup>2 \<le> r" "r < (2 powi (e + 1))\<^sup>2" "- 1022 \<le> e"
    and lo: "0 \<le> of_int n * 2 powi (e - 52) - (2::real) powi (e - 53)"
      "(of_int n * 2 powi (e - 52) - 2 powi (e - 53))\<^sup>2 < r"
    and hi: "r < (of_int n * 2 powi (e - 52) + 2 powi (e - 53))\<^sup>2"
    and fin: "\<bar>of_int n * 2 powi (e - 52)\<bar> < (2::real) powi 1024"
  shows "round64 (sqrt r) = Fin (of_int n * 2 powi (e - 52))"
proof -
  have 1: "2 powi e \<le> sqrt r" using assms(1) by (rule real_le_rsqrt)
  have 2: "sqrt r < 2 powi (e + 1)" using _ assms(2) by (rule real_less_lsqrt) simp
  have 3: "of_int n * 2 powi (e - 52) - 2 powi (e - 53) < sqrt r"
    using lo(2) by (rule real_less_rsqrt)
  have "(0::real) < 2 powi (e - 53)" by simp
  then have "0 \<le> of_int n * 2 powi (e - 52) + (2::real) powi (e - 53)"
    using lo(1) by linarith
  then have 4: "sqrt r < of_int n * 2 powi (e - 52) + 2 powi (e - 53)"
    using hi by (rule real_less_lsqrt)
  have "(0::real) < 2 powi e" by simp
  then have s: "0 \<le> sqrt r" using 1 by linarith
  show ?thesis
  proof (rule round64_eval)
    show "2 powi e \<le> \<bar>sqrt r\<bar>" using 1 s by simp
    show "\<bar>sqrt r\<bar> < 2 powi (e + 1)" using 2 s by simp
    show "- 1022 \<le> e" by fact
    show "\<bar>sqrt r - of_int n * 2 powi (e - 52)\<bar> < 2 powi (e - 53)" using 3 4 by linarith
    show "\<bar>of_int n * 2 powi (e - 52)\<bar> < (2::real) powi 1024" by fact
  qed
qed

section \<open>The sampler and the loop in binary64\<close>

lemma costs_loop_body64:
  "costs (loop_body64 bc bt mn mx s)
     = costs s @ [triangularValue64 (mul64 bc mn) bc (mul64 bc mx) (generator s 0)]"
  by (simp add: loop_body64_def triangularSample64_def Math_random_def Let_def split_def)

lemma costs_one_iteration64:
  "costs (runMonteCarlo_loop64 bc bt rf (Suc 0) g)
     = [triangularValue64 (mul64 bc (round64 (4 / 5))) bc
          (mul64 bc (add64 (Fin 1) (div64 rf (Fin 50)))) (g 0)]"
  by (simp add: runMonteCarlo_loop64_def Let_def costs_loop_body64)

text \<open>
  The evaluations below follow the source operation by operation. The numbers are
  binary64 numbers: \<open>3602879701896397 / 2^55\<close> is 0.1, \<open>3602879701896397 / 2^53\<close> is
  0.4, \<open>1351079888211149 / 2^52\<close> is 0.30000000000000004, \<open>900719925474099 / 2^53\<close> is
  0.09999999999999998, \<open>3602879701896397 / 2^52\<close> is 0.8, \<open>1351079888211149 / 2^49\<close> is
  2.4000000000000004, \<open>6004799503160657 / 2^55\<close> is 0.16666666666666655,
  \<open>3002399751580329 / 2^54\<close> is 0.16666666666666657, \<open>6755399441055743 / 2^51\<close> is
  2.9999999999999996, \<open>375299968947541 / 2^51\<close> is 0.16666666666666652,
  \<open>1501199875790165 / 2^53\<close> is 0.16666666666666663 and \<open>8022036836253695 / 2^47\<close>
  is 56.99999999999999.
\<close>

lemma sample_below_min:
  "triangularSample64 (Fin (3602879701896397 / 2 ^ 55)) (Fin (3602879701896397 / 2 ^ 55))
       (Fin (3602879701896397 / 2 ^ 53)) (constant_draws 0)
     = (Fin (900719925474099 / 2 ^ 53), constant_draws 0)"
proof -
  have s1: "sub64 (Fin (3602879701896397 / 2 ^ 55)) (Fin (3602879701896397 / 2 ^ 55)) = Fin 0"
    by (simp add: sub64_def round64_def)
  have s2: "sub64 (Fin (3602879701896397 / 2 ^ 53)) (Fin (3602879701896397 / 2 ^ 55))
      = Fin (1351079888211149 / 2 ^ 52)"
    using round64_tie [where x = "10808639105689191 / 2 ^ 55"
        and e = "-2" and n = "5404319552844596"]
    by (simp add: sub64_def)
  have s3: "div64 (Fin 0) (Fin (1351079888211149 / 2 ^ 52)) = Fin 0"
    by (simp add: div64_def round64_def)
  have s4: "sub64 (Fin 1) (Fin 0) = Fin 1"
    using round64_eval [where x = "1" and e = "0" and n = "4503599627370496"]
    by (simp add: sub64_def)
  have s5: "sub64 (Fin (3602879701896397 / 2 ^ 53)) (Fin (3602879701896397 / 2 ^ 55))
      = Fin (1351079888211149 / 2 ^ 52)"
    using round64_tie [where x = "10808639105689191 / 2 ^ 55"
        and e = "-2" and n = "5404319552844596"]
    by (simp add: sub64_def)
  have s6: "mul64 (Fin 1) (Fin (1351079888211149 / 2 ^ 52)) = Fin (1351079888211149 / 2 ^ 52)"
    using round64_eval [where x = "1351079888211149 / 2 ^ 52"
        and e = "-2" and n = "5404319552844596"]
    by (simp add: mul64_def)
  have s7: "mul64 (Fin (1351079888211149 / 2 ^ 52)) (Fin (1351079888211149 / 2 ^ 52))
      = Fin (1621295865853379 / 2 ^ 54)"
    using round64_eval [where x = "1825416864328650878587207900201 / 2 ^ 104"
        and e = "-4" and n = "6485183463413516"]
    by (simp add: mul64_def)
  have s8: "sqrt64 (Fin (1621295865853379 / 2 ^ 54)) = Fin (1351079888211149 / 2 ^ 52)"
    using round64_sqrt [where r = "1621295865853379 / 2 ^ 54"
        and e = "-2" and n = "5404319552844596"]
    by (simp add: sqrt64_def power2_eq_square)
  have s9: "sub64 (Fin (3602879701896397 / 2 ^ 53)) (Fin (1351079888211149 / 2 ^ 52))
      = Fin (900719925474099 / 2 ^ 53)"
    using round64_eval [where x = "900719925474099 / 2 ^ 53"
        and e = "-4" and n = "7205759403792792"]
    by (simp add: sub64_def)
  show ?thesis
    unfolding triangularSample64_def Math_random_def constant_draws_def triangularValue64_def Let_def prod.case
    by (simp only: s1 s2 s3 s4 s5 s6 s7 s8 s9) simp
qed

lemma cost_draw_minus_infinity:
  "costs (runMonteCarlo_loop64 (Fin (2 ^ 520)) (Fin 90) (Fin 50) 1 (constant_draws (1 / 2)))
     = [NegInf]"
proof -
  have s1: "round64 (4 / 5) = Fin (3602879701896397 / 2 ^ 52)"
    using round64_eval [where x = "4 / 5" and e = "-1" and n = "7205759403792794"] by simp
  have s2: "div64 (Fin 50) (Fin 50) = Fin 1"
    using round64_eval [where x = "1" and e = "0" and n = "4503599627370496"]
    by (simp add: div64_def)
  have s3: "add64 (Fin 1) (Fin 1) = Fin 2"
    using round64_eval [where x = "2" and e = "1" and n = "4503599627370496"]
    by (simp add: add64_def)
  have s4: "mul64 (Fin (2 ^ 520)) (Fin (3602879701896397 / 2 ^ 52))
      = Fin (3602879701896397 * 2 ^ 468)"
    using round64_eval [where x = "3602879701896397 * 2 ^ 468"
        and e = "519" and n = "7205759403792794"]
    by (simp add: mul64_def)
  have s5: "mul64 (Fin (2 ^ 520)) (Fin 2) = Fin (2 ^ 521)"
    using round64_eval [where x = "2 ^ 521" and e = "521" and n = "4503599627370496"]
    by (simp add: mul64_def)
  have s6: "sub64 (Fin (2 ^ 520)) (Fin (3602879701896397 * 2 ^ 468))
      = Fin (900719925474099 * 2 ^ 468)"
    using round64_eval [where x = "900719925474099 * 2 ^ 468"
        and e = "517" and n = "7205759403792792"]
    by (simp add: sub64_def)
  have s7: "sub64 (Fin (2 ^ 521)) (Fin (3602879701896397 * 2 ^ 468))
      = Fin (5404319552844595 * 2 ^ 468)"
    using round64_eval [where x = "5404319552844595 * 2 ^ 468"
        and e = "520" and n = "5404319552844595"]
    by (simp add: sub64_def)
  have s8: "div64 (Fin (900719925474099 * 2 ^ 468)) (Fin (5404319552844595 * 2 ^ 468))
      = Fin (1501199875790165 / 2 ^ 53)"
    using round64_eval [where x = "900719925474099 / 5404319552844595"
        and e = "-3" and n = "6004799503160660"]
    by (simp add: div64_def)
  have s9: "sub64 (Fin 1) (Fin (1 / 2)) = Fin (1 / 2)"
    using round64_eval [where x = "1 / 2" and e = "-1" and n = "4503599627370496"]
    by (simp add: sub64_def)
  have s10: "sub64 (Fin (2 ^ 521)) (Fin (2 ^ 520)) = Fin (2 ^ 520)"
    using round64_eval [where x = "2 ^ 520" and e = "520" and n = "4503599627370496"]
    by (simp add: sub64_def)
  have s11: "mul64 (Fin (1 / 2)) (Fin (5404319552844595 * 2 ^ 468))
      = Fin (5404319552844595 * 2 ^ 467)"
    using round64_eval [where x = "5404319552844595 * 2 ^ 467"
        and e = "519" and n = "5404319552844595"]
    by (simp add: mul64_def)
  have s12: "mul64 (Fin (5404319552844595 * 2 ^ 467)) (Fin (2 ^ 520)) = PosInf"
    using round64_overflow [of "5404319552844595 * 2 ^ 987"] by (simp add: mul64_def)
  have s13: "sqrt64 (PosInf) = PosInf"
    by (simp add: sqrt64_def minus_number_def)
  have s14: "sub64 (Fin (2 ^ 521)) (PosInf) = NegInf"
    by (simp add: sub64_def minus_number_def)
  show ?thesis
    unfolding One_nat_def costs_one_iteration64 constant_draws_def triangularValue64_def Let_def
    by (simp only: s1 s2 s3 s4 s5 s6 s7 s8 s9 s10 s11 s12 s13 s14) simp
qed

lemma cost_draw_infinity:
  "costs (runMonteCarlo_loop64 (Fin (2 ^ 520)) (Fin 90) (Fin 0) 1 (constant_draws (1 / 4)))
     = [PosInf]"
proof -
  have s1: "round64 (4 / 5) = Fin (3602879701896397 / 2 ^ 52)"
    using round64_eval [where x = "4 / 5" and e = "-1" and n = "7205759403792794"] by simp
  have s2: "div64 (Fin 0) (Fin 50) = Fin 0"
    by (simp add: div64_def round64_def)
  have s3: "add64 (Fin 1) (Fin 0) = Fin 1"
    using round64_eval [where x = "1" and e = "0" and n = "4503599627370496"]
    by (simp add: add64_def)
  have s4: "mul64 (Fin (2 ^ 520)) (Fin (3602879701896397 / 2 ^ 52))
      = Fin (3602879701896397 * 2 ^ 468)"
    using round64_eval [where x = "3602879701896397 * 2 ^ 468"
        and e = "519" and n = "7205759403792794"]
    by (simp add: mul64_def)
  have s5: "mul64 (Fin (2 ^ 520)) (Fin 1) = Fin (2 ^ 520)"
    using round64_eval [where x = "2 ^ 520" and e = "520" and n = "4503599627370496"]
    by (simp add: mul64_def)
  have s6: "sub64 (Fin (2 ^ 520)) (Fin (3602879701896397 * 2 ^ 468))
      = Fin (900719925474099 * 2 ^ 468)"
    using round64_eval [where x = "900719925474099 * 2 ^ 468"
        and e = "517" and n = "7205759403792792"]
    by (simp add: sub64_def)
  have s7: "sub64 (Fin (2 ^ 520)) (Fin (3602879701896397 * 2 ^ 468))
      = Fin (900719925474099 * 2 ^ 468)"
    using round64_eval [where x = "900719925474099 * 2 ^ 468"
        and e = "517" and n = "7205759403792792"]
    by (simp add: sub64_def)
  have s8: "div64 (Fin (900719925474099 * 2 ^ 468)) (Fin (900719925474099 * 2 ^ 468)) = Fin 1"
    using round64_eval [where x = "1" and e = "0" and n = "4503599627370496"]
    by (simp add: div64_def)
  have s9: "mul64 (Fin (1 / 4)) (Fin (900719925474099 * 2 ^ 468))
      = Fin (900719925474099 * 2 ^ 466)"
    using round64_eval [where x = "900719925474099 * 2 ^ 466"
        and e = "515" and n = "7205759403792792"]
    by (simp add: mul64_def)
  have s10: "mul64 (Fin (900719925474099 * 2 ^ 466)) (Fin (900719925474099 * 2 ^ 468)) = PosInf"
    using round64_overflow [of "811296384146066456669919861801 * 2 ^ 934"]
    by (simp add: mul64_def)
  have s11: "sqrt64 (PosInf) = PosInf"
    by (simp add: sqrt64_def minus_number_def)
  have s12: "add64 (Fin (3602879701896397 * 2 ^ 468)) (PosInf) = PosInf"
    by (simp add: add64_def minus_number_def)
  show ?thesis
    unfolding One_nat_def costs_one_iteration64 constant_draws_def triangularValue64_def Let_def
    by (simp only: s1 s2 s3 s4 s5 s6 s7 s8 s9 s10 s11 s12) simp
qed

lemma cost_draw_before_switch:
  "costs (runMonteCarlo_loop64 (Fin 3) (Fin 90) (Fin 50) 1 (constant_draws (6004799503160657 / 2 ^ 55)))
     = [Fin 3]"
proof -
  have s1: "round64 (4 / 5) = Fin (3602879701896397 / 2 ^ 52)"
    using round64_eval [where x = "4 / 5" and e = "-1" and n = "7205759403792794"] by simp
  have s2: "div64 (Fin 50) (Fin 50) = Fin 1"
    using round64_eval [where x = "1" and e = "0" and n = "4503599627370496"]
    by (simp add: div64_def)
  have s3: "add64 (Fin 1) (Fin 1) = Fin 2"
    using round64_eval [where x = "2" and e = "1" and n = "4503599627370496"]
    by (simp add: add64_def)
  have s4: "mul64 (Fin 3) (Fin (3602879701896397 / 2 ^ 52)) = Fin (1351079888211149 / 2 ^ 49)"
    using round64_tie [where x = "10808639105689191 / 2 ^ 52"
        and e = "1" and n = "5404319552844596"]
    by (simp add: mul64_def)
  have s5: "mul64 (Fin 3) (Fin 2) = Fin 6"
    using round64_eval [where x = "6" and e = "2" and n = "6755399441055744"]
    by (simp add: mul64_def)
  have s6: "sub64 (Fin 3) (Fin (1351079888211149 / 2 ^ 49)) = Fin (337769972052787 / 2 ^ 49)"
    using round64_eval [where x = "337769972052787 / 2 ^ 49"
        and e = "-1" and n = "5404319552844592"]
    by (simp add: sub64_def)
  have s7: "sub64 (Fin 6) (Fin (1351079888211149 / 2 ^ 49)) = Fin (2026619832316723 / 2 ^ 49)"
    using round64_eval [where x = "2026619832316723 / 2 ^ 49"
        and e = "1" and n = "8106479329266892"]
    by (simp add: sub64_def)
  have s8: "div64 (Fin (337769972052787 / 2 ^ 49)) (Fin (2026619832316723 / 2 ^ 49))
      = Fin (3002399751580329 / 2 ^ 54)"
    using round64_eval [where x = "337769972052787 / 2026619832316723"
        and e = "-3" and n = "6004799503160658"]
    by (simp add: div64_def)
  have s9: "mul64 (Fin (6004799503160657 / 2 ^ 55)) (Fin (2026619832316723 / 2 ^ 49))
      = Fin (5404319552844591 / 2 ^ 53)"
    using round64_eval [where x = "12169445762190992271389176767011 / 2 ^ 104"
        and e = "-1" and n = "5404319552844591"]
    by (simp add: mul64_def)
  have s10: "mul64 (Fin (5404319552844591 / 2 ^ 53)) (Fin (337769972052787 / 2 ^ 49))
      = Fin (6485183463413505 / 2 ^ 54)"
    using round64_eval [where x = "1825416864328647838657459425117 / 2 ^ 102"
        and e = "-2" and n = "6485183463413505"]
    by (simp add: mul64_def)
  have s11: "sqrt64 (Fin (6485183463413505 / 2 ^ 54)) = Fin (5404319552844591 / 2 ^ 53)"
    using round64_sqrt [where r = "6485183463413505 / 2 ^ 54"
        and e = "-1" and n = "5404319552844591"]
    by (simp add: sqrt64_def power2_eq_square)
  have s12: "add64 (Fin (1351079888211149 / 2 ^ 49)) (Fin (5404319552844591 / 2 ^ 53)) = Fin 3"
    using round64_eval [where x = "27021597764222975 / 2 ^ 53"
        and e = "1" and n = "6755399441055744"]
    by (simp add: add64_def)
  show ?thesis
    unfolding One_nat_def costs_one_iteration64 constant_draws_def triangularValue64_def Let_def
    by (simp only: s1 s2 s3 s4 s5 s6 s7 s8 s9 s10 s11 s12) simp
qed

lemma sample_before_switch:
  "triangularSample64 (Fin (1351079888211149 / 2 ^ 49)) (Fin 3) (Fin 6)
       (constant_draws (6004799503160657 / 2 ^ 55))
     = (Fin 3, constant_draws (6004799503160657 / 2 ^ 55))"
proof -
  have s1: "sub64 (Fin 3) (Fin (1351079888211149 / 2 ^ 49)) = Fin (337769972052787 / 2 ^ 49)"
    using round64_eval [where x = "337769972052787 / 2 ^ 49"
        and e = "-1" and n = "5404319552844592"]
    by (simp add: sub64_def)
  have s2: "sub64 (Fin 6) (Fin (1351079888211149 / 2 ^ 49)) = Fin (2026619832316723 / 2 ^ 49)"
    using round64_eval [where x = "2026619832316723 / 2 ^ 49"
        and e = "1" and n = "8106479329266892"]
    by (simp add: sub64_def)
  have s3: "div64 (Fin (337769972052787 / 2 ^ 49)) (Fin (2026619832316723 / 2 ^ 49))
      = Fin (3002399751580329 / 2 ^ 54)"
    using round64_eval [where x = "337769972052787 / 2026619832316723"
        and e = "-3" and n = "6004799503160658"]
    by (simp add: div64_def)
  have s4: "mul64 (Fin (6004799503160657 / 2 ^ 55)) (Fin (2026619832316723 / 2 ^ 49))
      = Fin (5404319552844591 / 2 ^ 53)"
    using round64_eval [where x = "12169445762190992271389176767011 / 2 ^ 104"
        and e = "-1" and n = "5404319552844591"]
    by (simp add: mul64_def)
  have s5: "mul64 (Fin (5404319552844591 / 2 ^ 53)) (Fin (337769972052787 / 2 ^ 49))
      = Fin (6485183463413505 / 2 ^ 54)"
    using round64_eval [where x = "1825416864328647838657459425117 / 2 ^ 102"
        and e = "-2" and n = "6485183463413505"]
    by (simp add: mul64_def)
  have s6: "sqrt64 (Fin (6485183463413505 / 2 ^ 54)) = Fin (5404319552844591 / 2 ^ 53)"
    using round64_sqrt [where r = "6485183463413505 / 2 ^ 54"
        and e = "-1" and n = "5404319552844591"]
    by (simp add: sqrt64_def power2_eq_square)
  have s7: "add64 (Fin (1351079888211149 / 2 ^ 49)) (Fin (5404319552844591 / 2 ^ 53)) = Fin 3"
    using round64_eval [where x = "27021597764222975 / 2 ^ 53"
        and e = "1" and n = "6755399441055744"]
    by (simp add: add64_def)
  show ?thesis
    unfolding triangularSample64_def Math_random_def constant_draws_def triangularValue64_def Let_def prod.case
    by (simp only: s1 s2 s3 s4 s5 s6 s7) simp
qed

lemma cost_draw_after_switch:
  "costs (runMonteCarlo_loop64 (Fin 3) (Fin 90) (Fin 50) 1 (constant_draws (3002399751580329 / 2 ^ 54)))
     = [Fin (6755399441055743 / 2 ^ 51)]"
proof -
  have s1: "round64 (4 / 5) = Fin (3602879701896397 / 2 ^ 52)"
    using round64_eval [where x = "4 / 5" and e = "-1" and n = "7205759403792794"] by simp
  have s2: "div64 (Fin 50) (Fin 50) = Fin 1"
    using round64_eval [where x = "1" and e = "0" and n = "4503599627370496"]
    by (simp add: div64_def)
  have s3: "add64 (Fin 1) (Fin 1) = Fin 2"
    using round64_eval [where x = "2" and e = "1" and n = "4503599627370496"]
    by (simp add: add64_def)
  have s4: "mul64 (Fin 3) (Fin (3602879701896397 / 2 ^ 52)) = Fin (1351079888211149 / 2 ^ 49)"
    using round64_tie [where x = "10808639105689191 / 2 ^ 52"
        and e = "1" and n = "5404319552844596"]
    by (simp add: mul64_def)
  have s5: "mul64 (Fin 3) (Fin 2) = Fin 6"
    using round64_eval [where x = "6" and e = "2" and n = "6755399441055744"]
    by (simp add: mul64_def)
  have s6: "sub64 (Fin 3) (Fin (1351079888211149 / 2 ^ 49)) = Fin (337769972052787 / 2 ^ 49)"
    using round64_eval [where x = "337769972052787 / 2 ^ 49"
        and e = "-1" and n = "5404319552844592"]
    by (simp add: sub64_def)
  have s7: "sub64 (Fin 6) (Fin (1351079888211149 / 2 ^ 49)) = Fin (2026619832316723 / 2 ^ 49)"
    using round64_eval [where x = "2026619832316723 / 2 ^ 49"
        and e = "1" and n = "8106479329266892"]
    by (simp add: sub64_def)
  have s8: "div64 (Fin (337769972052787 / 2 ^ 49)) (Fin (2026619832316723 / 2 ^ 49))
      = Fin (3002399751580329 / 2 ^ 54)"
    using round64_eval [where x = "337769972052787 / 2026619832316723"
        and e = "-3" and n = "6004799503160658"]
    by (simp add: div64_def)
  have s9: "sub64 (Fin 1) (Fin (3002399751580329 / 2 ^ 54)) = Fin (1876499844737707 / 2 ^ 51)"
    using round64_tie [where x = "15011998757901655 / 2 ^ 54"
        and e = "-1" and n = "7505999378950828"]
    by (simp add: sub64_def)
  have s10: "sub64 (Fin 6) (Fin 3) = Fin 3"
    using round64_eval [where x = "3" and e = "1" and n = "6755399441055744"]
    by (simp add: sub64_def)
  have s11: "mul64 (Fin (1876499844737707 / 2 ^ 51)) (Fin (2026619832316723 / 2 ^ 49))
      = Fin (6755399441055745 / 2 ^ 51)"
    using round64_eval [where x = "3802951800684688504730084774161 / 2 ^ 100"
        and e = "1" and n = "6755399441055745"]
    by (simp add: mul64_def)
  have s12: "mul64 (Fin (6755399441055745 / 2 ^ 51)) (Fin 3) = Fin (5066549580791809 / 2 ^ 49)"
    using round64_eval [where x = "20266198323167235 / 2 ^ 51"
        and e = "3" and n = "5066549580791809"]
    by (simp add: mul64_def)
  have s13: "sqrt64 (Fin (5066549580791809 / 2 ^ 49)) = Fin (6755399441055745 / 2 ^ 51)"
    using round64_sqrt [where r = "5066549580791809 / 2 ^ 49"
        and e = "1" and n = "6755399441055745"]
    by (simp add: sqrt64_def power2_eq_square)
  have s14: "sub64 (Fin 6) (Fin (6755399441055745 / 2 ^ 51)) = Fin (6755399441055743 / 2 ^ 51)"
    using round64_eval [where x = "6755399441055743 / 2 ^ 51"
        and e = "1" and n = "6755399441055743"]
    by (simp add: sub64_def)
  show ?thesis
    unfolding One_nat_def costs_one_iteration64 constant_draws_def triangularValue64_def Let_def
    by (simp only: s1 s2 s3 s4 s5 s6 s7 s8 s9 s10 s11 s12 s13 s14) simp
qed

lemma sample_after_switch:
  "triangularSample64 (Fin (1351079888211149 / 2 ^ 49)) (Fin 3) (Fin 6)
       (constant_draws (3002399751580329 / 2 ^ 54))
     = (Fin (6755399441055743 / 2 ^ 51), constant_draws (3002399751580329 / 2 ^ 54))"
proof -
  have s1: "sub64 (Fin 3) (Fin (1351079888211149 / 2 ^ 49)) = Fin (337769972052787 / 2 ^ 49)"
    using round64_eval [where x = "337769972052787 / 2 ^ 49"
        and e = "-1" and n = "5404319552844592"]
    by (simp add: sub64_def)
  have s2: "sub64 (Fin 6) (Fin (1351079888211149 / 2 ^ 49)) = Fin (2026619832316723 / 2 ^ 49)"
    using round64_eval [where x = "2026619832316723 / 2 ^ 49"
        and e = "1" and n = "8106479329266892"]
    by (simp add: sub64_def)
  have s3: "div64 (Fin (337769972052787 / 2 ^ 49)) (Fin (2026619832316723 / 2 ^ 49))
      = Fin (3002399751580329 / 2 ^ 54)"
    using round64_eval [where x = "337769972052787 / 2026619832316723"
        and e = "-3" and n = "6004799503160658"]
    by (simp add: div64_def)
  have s4: "sub64 (Fin 1) (Fin (3002399751580329 / 2 ^ 54)) = Fin (1876499844737707 / 2 ^ 51)"
    using round64_tie [where x = "15011998757901655 / 2 ^ 54"
        and e = "-1" and n = "7505999378950828"]
    by (simp add: sub64_def)
  have s5: "sub64 (Fin 6) (Fin 3) = Fin 3"
    using round64_eval [where x = "3" and e = "1" and n = "6755399441055744"]
    by (simp add: sub64_def)
  have s6: "mul64 (Fin (1876499844737707 / 2 ^ 51)) (Fin (2026619832316723 / 2 ^ 49))
      = Fin (6755399441055745 / 2 ^ 51)"
    using round64_eval [where x = "3802951800684688504730084774161 / 2 ^ 100"
        and e = "1" and n = "6755399441055745"]
    by (simp add: mul64_def)
  have s7: "mul64 (Fin (6755399441055745 / 2 ^ 51)) (Fin 3) = Fin (5066549580791809 / 2 ^ 49)"
    using round64_eval [where x = "20266198323167235 / 2 ^ 51"
        and e = "3" and n = "5066549580791809"]
    by (simp add: mul64_def)
  have s8: "sqrt64 (Fin (5066549580791809 / 2 ^ 49)) = Fin (6755399441055745 / 2 ^ 51)"
    using round64_sqrt [where r = "5066549580791809 / 2 ^ 49"
        and e = "1" and n = "6755399441055745"]
    by (simp add: sqrt64_def power2_eq_square)
  have s9: "sub64 (Fin 6) (Fin (6755399441055745 / 2 ^ 51)) = Fin (6755399441055743 / 2 ^ 51)"
    using round64_eval [where x = "6755399441055743 / 2 ^ 51"
        and e = "1" and n = "6755399441055743"]
    by (simp add: sub64_def)
  show ?thesis
    unfolding triangularSample64_def Math_random_def constant_draws_def triangularValue64_def Let_def prod.case
    by (simp only: s1 s2 s3 s4 s5 s6 s7 s8 s9) simp
qed

lemma cost_draw_57_before:
  "costs (runMonteCarlo_loop64 (Fin 57) (Fin 90) (Fin 50) 1 (constant_draws (375299968947541 / 2 ^ 51)))
     = [Fin 57]"
proof -
  have s1: "round64 (4 / 5) = Fin (3602879701896397 / 2 ^ 52)"
    using round64_eval [where x = "4 / 5" and e = "-1" and n = "7205759403792794"] by simp
  have s2: "div64 (Fin 50) (Fin 50) = Fin 1"
    using round64_eval [where x = "1" and e = "0" and n = "4503599627370496"]
    by (simp add: div64_def)
  have s3: "add64 (Fin 1) (Fin 1) = Fin 2"
    using round64_eval [where x = "2" and e = "1" and n = "4503599627370496"]
    by (simp add: add64_def)
  have s4: "mul64 (Fin 57) (Fin (3602879701896397 / 2 ^ 52)) = Fin (6417629469002957 / 2 ^ 47)"
    using round64_eval [where x = "205364143008094629 / 2 ^ 52"
        and e = "5" and n = "6417629469002957"]
    by (simp add: mul64_def)
  have s5: "mul64 (Fin 57) (Fin 2) = Fin 114"
    using round64_eval [where x = "114" and e = "6" and n = "8022036836253696"]
    by (simp add: mul64_def)
  have s6: "sub64 (Fin 57) (Fin (6417629469002957 / 2 ^ 47)) = Fin (1604407367250739 / 2 ^ 47)"
    using round64_eval [where x = "1604407367250739 / 2 ^ 47"
        and e = "3" and n = "6417629469002956"]
    by (simp add: sub64_def)
  have s7: "sub64 (Fin 114) (Fin (6417629469002957 / 2 ^ 47)) = Fin (2406611050876109 / 2 ^ 45)"
    using round64_tie [where x = "9626444203504435 / 2 ^ 47"
        and e = "6" and n = "4813222101752218"]
    by (simp add: sub64_def)
  have s8: "div64 (Fin (1604407367250739 / 2 ^ 47)) (Fin (2406611050876109 / 2 ^ 45))
      = Fin (1501199875790165 / 2 ^ 53)"
    using round64_eval [where x = "1604407367250739 / 9626444203504436"
        and e = "-3" and n = "6004799503160660"]
    by (simp add: div64_def)
  have s9: "mul64 (Fin (375299968947541 / 2 ^ 51)) (Fin (2406611050876109 / 2 ^ 45))
      = Fin (802203683625369 / 2 ^ 46)"
    using round64_eval [where x = "903201052662612721422711197969 / 2 ^ 96"
        and e = "3" and n = "6417629469002952"]
    by (simp add: mul64_def)
  have s10: "mul64 (Fin (802203683625369 / 2 ^ 46)) (Fin (1604407367250739 / 2 ^ 47))
      = Fin (4572560996664603 / 2 ^ 45)"
    using round64_eval [where x = "1287061500044223041121964397691 / 2 ^ 93"
        and e = "7" and n = "4572560996664603"]
    by (simp add: mul64_def)
  have s11: "sqrt64 (Fin (4572560996664603 / 2 ^ 45)) = Fin (3208814734501477 / 2 ^ 48)"
    using round64_sqrt [where r = "4572560996664603 / 2 ^ 45"
        and e = "3" and n = "6417629469002954"]
    by (simp add: sqrt64_def power2_eq_square)
  have s12: "add64 (Fin (6417629469002957 / 2 ^ 47)) (Fin (3208814734501477 / 2 ^ 48)) = Fin 57"
    using round64_tie [where x = "16044073672507391 / 2 ^ 48"
        and e = "5" and n = "8022036836253696"]
    by (simp add: add64_def)
  show ?thesis
    unfolding One_nat_def costs_one_iteration64 constant_draws_def triangularValue64_def Let_def
    by (simp only: s1 s2 s3 s4 s5 s6 s7 s8 s9 s10 s11 s12) simp
qed

lemma cost_draw_57_after:
  "costs (runMonteCarlo_loop64 (Fin 57) (Fin 90) (Fin 50) 1 (constant_draws (1501199875790165 / 2 ^ 53)))
     = [Fin (8022036836253695 / 2 ^ 47)]"
proof -
  have s1: "round64 (4 / 5) = Fin (3602879701896397 / 2 ^ 52)"
    using round64_eval [where x = "4 / 5" and e = "-1" and n = "7205759403792794"] by simp
  have s2: "div64 (Fin 50) (Fin 50) = Fin 1"
    using round64_eval [where x = "1" and e = "0" and n = "4503599627370496"]
    by (simp add: div64_def)
  have s3: "add64 (Fin 1) (Fin 1) = Fin 2"
    using round64_eval [where x = "2" and e = "1" and n = "4503599627370496"]
    by (simp add: add64_def)
  have s4: "mul64 (Fin 57) (Fin (3602879701896397 / 2 ^ 52)) = Fin (6417629469002957 / 2 ^ 47)"
    using round64_eval [where x = "205364143008094629 / 2 ^ 52"
        and e = "5" and n = "6417629469002957"]
    by (simp add: mul64_def)
  have s5: "mul64 (Fin 57) (Fin 2) = Fin 114"
    using round64_eval [where x = "114" and e = "6" and n = "8022036836253696"]
    by (simp add: mul64_def)
  have s6: "sub64 (Fin 57) (Fin (6417629469002957 / 2 ^ 47)) = Fin (1604407367250739 / 2 ^ 47)"
    using round64_eval [where x = "1604407367250739 / 2 ^ 47"
        and e = "3" and n = "6417629469002956"]
    by (simp add: sub64_def)
  have s7: "sub64 (Fin 114) (Fin (6417629469002957 / 2 ^ 47)) = Fin (2406611050876109 / 2 ^ 45)"
    using round64_tie [where x = "9626444203504435 / 2 ^ 47"
        and e = "6" and n = "4813222101752218"]
    by (simp add: sub64_def)
  have s8: "div64 (Fin (1604407367250739 / 2 ^ 47)) (Fin (2406611050876109 / 2 ^ 45))
      = Fin (1501199875790165 / 2 ^ 53)"
    using round64_eval [where x = "1604407367250739 / 9626444203504436"
        and e = "-3" and n = "6004799503160660"]
    by (simp add: div64_def)
  have s9: "sub64 (Fin 1) (Fin (1501199875790165 / 2 ^ 53)) = Fin (7505999378950827 / 2 ^ 53)"
    using round64_eval [where x = "7505999378950827 / 2 ^ 53"
        and e = "-1" and n = "7505999378950827"]
    by (simp add: sub64_def)
  have s10: "sub64 (Fin 114) (Fin 57) = Fin 57"
    using round64_eval [where x = "57" and e = "5" and n = "8022036836253696"]
    by (simp add: sub64_def)
  have s11: "mul64 (Fin (7505999378950827 / 2 ^ 53)) (Fin (2406611050876109 / 2 ^ 45))
      = Fin (8022036836253697 / 2 ^ 47)"
    using round64_eval [where x = "18064021053252271274731580092143 / 2 ^ 98"
        and e = "5" and n = "8022036836253697"]
    by (simp add: mul64_def)
  have s12: "mul64 (Fin (8022036836253697 / 2 ^ 47)) (Fin 57) = Fin (7144626557288449 / 2 ^ 41)"
    using round64_eval [where x = "457256099666460729 / 2 ^ 47"
        and e = "11" and n = "7144626557288449"]
    by (simp add: mul64_def)
  have s13: "sqrt64 (Fin (7144626557288449 / 2 ^ 41)) = Fin (8022036836253697 / 2 ^ 47)"
    using round64_sqrt [where r = "7144626557288449 / 2 ^ 41"
        and e = "5" and n = "8022036836253697"]
    by (simp add: sqrt64_def power2_eq_square)
  have s14: "sub64 (Fin 114) (Fin (8022036836253697 / 2 ^ 47))
      = Fin (8022036836253695 / 2 ^ 47)"
    using round64_eval [where x = "8022036836253695 / 2 ^ 47"
        and e = "5" and n = "8022036836253695"]
    by (simp add: sub64_def)
  show ?thesis
    unfolding One_nat_def costs_one_iteration64 constant_draws_def triangularValue64_def Let_def
    by (simp only: s1 s2 s3 s4 s5 s6 s7 s8 s9 s10 s11 s12 s13 s14) simp
qed


section \<open>Claims about the values of the samples\<close>

text \<open>
  C3. The value that \<open>triangularSample\<close> returns can lie outside \<open>[min, max]\<close>. With
  \<open>min = mode = 0.1\<close>, \<open>max = 0.4\<close> and the draw 0: \<open>max - min\<close> is
  0.30000000000000004, the radicand \<open>(1 - u) * (max - min) * (max - mode)\<close> rounds to
  0.09000000000000002, its root is 0.30000000000000004 again, and the value
  \<open>max - root\<close> is 0.09999999999999998, below \<open>min\<close>. With the parameters that
  \<open>runMonteCarlo\<close> computes from \<open>baseCost = 2^520\<close> and \<open>riskFactor = 50\<close>, and the
  draw \<open>1/2\<close>, the radicand overflows and the cost sample is minus infinity.
\<close>
theorem triangularSample64_leaves_range:
  "triangularSample64 (Fin (3602879701896397 / 2 ^ 55)) (Fin (3602879701896397 / 2 ^ 55))
       (Fin (3602879701896397 / 2 ^ 53)) (constant_draws 0)
     = (Fin (900719925474099 / 2 ^ 53), constant_draws 0)
   \<and> Fin (900719925474099 / 2 ^ 53) < Fin (3602879701896397 / 2 ^ 55)
   \<and> Fin (3602879701896397 / 2 ^ 55) < Fin (3602879701896397 / 2 ^ 53)
   \<and> costs (runMonteCarlo_loop64 (Fin (2 ^ 520)) (Fin 90) (Fin 50) 1 (constant_draws (1 / 2)))
       = [NegInf]"
  by (simp only: sample_below_min cost_draw_minus_infinity) simp

text \<open>
  C10. The value returned can decrease when the draw increases. For \<open>baseCost = 3\<close> and
  \<open>riskFactor = 50\<close> the parameters of the cost sample are \<open>min = 2.4000000000000004\<close>,
  \<open>mode = 3\<close>, \<open>max = 6\<close>, and \<open>(mode - min) / (max - min)\<close> is 0.16666666666666657.
  The draw 0.16666666666666655, the binary64 number just below it, takes the first branch
  and gives 3; the draw 0.16666666666666657 takes the second branch and gives
  2.9999999999999996. For \<open>baseCost = 57\<close> and \<open>riskFactor = 50\<close> the same happens with
  two draws that are neighbouring multiples of \<open>2^-53\<close>: 0.16666666666666652 gives 57
  and 0.16666666666666663 gives 56.99999999999999.
\<close>
theorem triangularSample64_not_monotone:
  "triangularSample64 (Fin (1351079888211149 / 2 ^ 49)) (Fin 3) (Fin 6)
       (constant_draws (6004799503160657 / 2 ^ 55))
     = (Fin 3, constant_draws (6004799503160657 / 2 ^ 55))
   \<and> triangularSample64 (Fin (1351079888211149 / 2 ^ 49)) (Fin 3) (Fin 6)
       (constant_draws (3002399751580329 / 2 ^ 54))
     = (Fin (6755399441055743 / 2 ^ 51), constant_draws (3002399751580329 / 2 ^ 54))
   \<and> (6004799503160657 / 2 ^ 55 :: real) < 3002399751580329 / 2 ^ 54
   \<and> Fin (6755399441055743 / 2 ^ 51) < Fin 3
   \<and> costs (runMonteCarlo_loop64 (Fin 3) (Fin 90) (Fin 50) 1
        (constant_draws (6004799503160657 / 2 ^ 55)))
       = [Fin 3]
   \<and> costs (runMonteCarlo_loop64 (Fin 3) (Fin 90) (Fin 50) 1
        (constant_draws (3002399751580329 / 2 ^ 54)))
       = [Fin (6755399441055743 / 2 ^ 51)]
   \<and> costs (runMonteCarlo_loop64 (Fin 57) (Fin 90) (Fin 50) 1
        (constant_draws (375299968947541 / 2 ^ 51)))
       = [Fin 57]
   \<and> costs (runMonteCarlo_loop64 (Fin 57) (Fin 90) (Fin 50) 1
        (constant_draws (1501199875790165 / 2 ^ 53)))
       = [Fin (8022036836253695 / 2 ^ 47)]
   \<and> (375299968947541 / 2 ^ 51 :: real) < 1501199875790165 / 2 ^ 53
   \<and> Fin (8022036836253695 / 2 ^ 47) < Fin 57"
  by (simp only: sample_before_switch sample_after_switch cost_draw_before_switch
      cost_draw_after_switch cost_draw_57_before cost_draw_57_after) simp

text \<open>
  C7. With \<open>riskFactor = 0\<close> a cost sample can exceed \<open>baseCost\<close>. For
  \<open>baseCost = 2^520\<close> and the draw \<open>1/4\<close>, \<open>max - min\<close> and \<open>mode - min\<close> are about
  \<open>2^517.7\<close>, the radicand \<open>u * (max - min) * (mode - min)\<close> is about \<open>2^1033\<close> and
  overflows, and the cost sample that the loop of \<open>runMonteCarlo\<close> collects is plus
  infinity.
\<close>
theorem cost_draw_above_baseCost:
  "costs (runMonteCarlo_loop64 (Fin (2 ^ 520)) (Fin 90) (Fin 0) 1 (constant_draws (1 / 4)))
     = [PosInf]
   \<and> Fin (2 ^ 520) < PosInf \<and> \<not> PosInf \<le> Fin (2 ^ 520)"
  by (simp only: cost_draw_infinity) simp

end
